theory Spec2Isabelle
  imports
    Complex_Main
    "HOL-Library.Multiset"
    "HOL-Library.Char_ord"
    "HOL-Library.List_Lexorder"
    "HOL-Library.Product_Lexorder"
begin

section \<open>Data model\<close>

text \<open>
  The dashboard of \<^verbatim>\<open>src/app/main.py\<close> works on a pandas DataFrame. A DataFrame is
  modelled as the list of its rows, a row as a record of its columns.

  \<^item> A float64 cell is \<open>real option\<close>: \<open>None\<close> is NaN, \<open>Some x\<close> a finite value.
    Arithmetic on finite values is exact; rounding and arithmetic on the infinities of
    IEEE 754 are outside the model. A Quantity that reads as infinite is inside the model,
    since the cast of line 50 refuses it.
  \<^item> An int64 cell is an \<open>int\<close> between \<open>- 2 ^ 63\<close> and \<open>2 ^ 63 - 1\<close>; the cast to
    int64 and the int64 sums are written out with what they give outside this range.
  \<^item> A nullable SQL column (\<open>bill_no\<close>, \<open>itemname\<close>, \<open>customer_id\<close>, \<open>country\<close>) is an
    \<open>option\<close>; \<open>None\<close> is the missing value (NULL, read by pandas as None/NaN).
  \<^item> A \<open>datetime64[ns]\<close> value is the integer pandas stores: nanoseconds since
    1970-01-01T00:00. The \<open>date\<close> column is taken as present in every row.
  \<^item> A \<open>datetime.date\<close> is its day number (days since 1970-01-01); the order of
    dates is the order of day numbers.
\<close>

type_synonym float64 = "real option"

text \<open>
  A cell of a column handed to \<^verbatim>\<open>pd.to_numeric(..., errors="coerce")\<close>: missing, a
  value that \<^verbatim>\<open>to_numeric\<close> reads as the number \<open>x\<close> (a number, or a string that
  spells one), or a string that it cannot read. What a Quantity reads as is a
  \<open>reading\<close>, finite or one of the two infinities (the float \<^verbatim>\<open>inf\<close>, the strings
  \<^verbatim>\<open>"inf"\<close> and \<^verbatim>\<open>"-inf"\<close>); what a Price reads as is taken to be finite.
\<close>

datatype reading = Finite real | PosInf | NegInf

datatype 'v cell = Missing | Numeric 'v | NonNumeric string

text \<open>The rows \<^verbatim>\<open>pd.read_sql\<close> returns for the query of \<^verbatim>\<open>load_data\<close>.\<close>

record raw_row =
  bill_no :: "string option"
  itemname :: "string option"
  quantity :: "reading cell"
  date :: int
  price :: "real cell"
  customer_id :: "int option"
  country :: "string option"

text \<open>The rows of the DataFrame \<^verbatim>\<open>load_data\<close> returns.\<close>

record transaction =
  BillNo :: "string option"
  Itemname :: "string option"
  Quantity :: int
  Date :: int
  Price :: float64
  CustomerID :: "int option"
  Country :: "string option"
  Revenue :: float64
  InvoiceDate :: int
  InvoiceMonth :: int
  Hour :: int
  Weekday :: string

datatype py_error =
    IndexError
  | ValueError
  | IntCastingNaNError
  | StreamlitValueBelowMinError
  | StreamlitValueAboveMaxError

section \<open>pandas operations used by the code\<close>

definition to_numeric :: "'v cell \<Rightarrow> 'v option" where
  \<comment> \<open>\<^verbatim>\<open>pd.to_numeric(col, errors="coerce")\<close>: what cannot be read becomes NaN.\<close>
  "to_numeric v = (case v of Missing \<Rightarrow> None | Numeric x \<Rightarrow> Some x | NonNumeric s \<Rightarrow> None)"

definition fillna :: "'v \<Rightarrow> 'v option \<Rightarrow> 'v" where
  "fillna d v = (case v of None \<Rightarrow> d | Some x \<Rightarrow> x)"

definition is_finite :: "reading \<Rightarrow> bool" where
  "is_finite x = (case x of Finite _ \<Rightarrow> True | PosInf \<Rightarrow> False | NegInf \<Rightarrow> False)"

definition cast_int64 :: "reading \<Rightarrow> int" where
  \<comment> \<open>The cast of one float64 value to int64: truncation toward zero; a value whose
      truncation is outside the int64 range comes out as \<open>- 2 ^ 63\<close>, the result of the
      conversion instruction of x86-64.\<close>
  "cast_int64 x =
     (case x of
        Finite y \<Rightarrow>
          (let t = (if 0 \<le> y then \<lfloor>y\<rfloor> else \<lceil>y\<rceil>)
           in if - (2 ^ 63) \<le> t \<and> t < 2 ^ 63 then t else - (2 ^ 63))
      | PosInf \<Rightarrow> - (2 ^ 63)
      | NegInf \<Rightarrow> - (2 ^ 63))"

definition astype_int :: "reading list \<Rightarrow> py_error + int list" where
  \<comment> \<open>\<^verbatim>\<open>.astype(int)\<close> on a float column without NaN: pandas raises IntCastingNaNError
      when a value of the column is not finite, and casts every value otherwise.\<close>
  "astype_int col =
     (if \<forall>x\<in>set col. is_finite x then Inr (map cast_int64 col) else Inl IntCastingNaNError)"

definition int64_wrap :: "int \<Rightarrow> int" where
  \<comment> \<open>The int64 value of an integer: two's complement wrap-around.\<close>
  "int64_wrap n = (n + 2 ^ 63) mod 2 ^ 64 - 2 ^ 63"

definition int64_sum :: "int list \<Rightarrow> int" where
  \<comment> \<open>The sum of an int64 column, which wraps around.\<close>
  "int64_sum xs = int64_wrap (sum_list xs)"

definition mul_int_float :: "int \<Rightarrow> float64 \<Rightarrow> float64" where
  \<comment> \<open>int64 column times float64 column: NaN propagates.\<close>
  "mul_int_float q p = (case p of None \<Rightarrow> None | Some x \<Rightarrow> Some (of_int q * x))"

primrec dropna :: "'a option list \<Rightarrow> 'a list" where
  "dropna [] = []"
| "dropna (v # vs) = (case v of None \<Rightarrow> dropna vs | Some x \<Rightarrow> x # dropna vs)"

definition nunique :: "'a option list \<Rightarrow> nat" where
  \<comment> \<open>\<^verbatim>\<open>Series.nunique()\<close>: the number of distinct values, missing ones not counted.\<close>
  "nunique vs = length (remdups (dropna vs))"

definition series_sum :: "float64 list \<Rightarrow> real" where
  \<comment> \<open>\<^verbatim>\<open>Series.sum()\<close> skips NaN; the sum of no value is 0.\<close>
  "series_sum vs = sum_list (dropna vs)"

definition series_mean :: "real list \<Rightarrow> float64" where
  \<comment> \<open>\<^verbatim>\<open>Series.mean()\<close>: NaN on an empty series.\<close>
  "series_mean xs = (if xs = [] then None else Some (sum_list xs / real (length xs)))"

fun series_min :: "int list \<Rightarrow> int option" where
  "series_min [] = None"
| "series_min (x # xs) = Some (fold min xs x)"

fun series_max :: "int list \<Rightarrow> int option" where
  "series_max [] = None"
| "series_max (x # xs) = Some (fold max xs x)"

definition py_int :: "int option \<Rightarrow> py_error + int" where
  \<comment> \<open>\<^verbatim>\<open>int(series.min())\<close>: the minimum of an empty series is NaN and \<^verbatim>\<open>int(nan)\<close>
      raises ValueError.\<close>
  "py_int v = (case v of None \<Rightarrow> Inl ValueError | Some n \<Rightarrow> Inr n)"

definition isin :: "'a option \<Rightarrow> 'a list \<Rightarrow> bool" where
  \<comment> \<open>\<^verbatim>\<open>Series.isin(values)\<close> for a list of defined values: a missing cell is in none.\<close>
  "isin v values = (case v of None \<Rightarrow> False | Some x \<Rightarrow> x \<in> set values)"

definition df_head :: "int \<Rightarrow> 'a list \<Rightarrow> 'a list" where
  \<comment> \<open>\<^verbatim>\<open>DataFrame.head(n)\<close>: the first \<open>n\<close> rows; for negative \<open>n\<close> all but the last \<open>-n\<close>.\<close>
  "df_head n rows = (if 0 \<le> n then take (nat n) rows else take (length rows - nat (- n)) rows)"

subsection \<open>Timestamps\<close>

definition ns_per_hour :: int where
  "ns_per_hour = 3600 * 1000000000"

definition ns_per_day :: int where
  "ns_per_day = 24 * ns_per_hour"

definition dt_date :: "int \<Rightarrow> int" where
  \<comment> \<open>\<^verbatim>\<open>.dt.date\<close>\<close>
  "dt_date t = t div ns_per_day"

definition dt_hour :: "int \<Rightarrow> int" where
  \<comment> \<open>\<^verbatim>\<open>.dt.hour\<close>\<close>
  "dt_hour t = (t div ns_per_hour) mod 24"

definition weekday_order :: "string list" where
  "weekday_order =
     [''Monday'', ''Tuesday'', ''Wednesday'', ''Thursday'', ''Friday'', ''Saturday'', ''Sunday'']"

definition dt_day_name :: "int \<Rightarrow> string" where
  \<comment> \<open>\<^verbatim>\<open>.dt.day_name()\<close>; 1970-01-01 was a Thursday.\<close>
  "dt_day_name t = weekday_order ! nat ((dt_date t + 3) mod 7)"

definition day_of_month :: "int \<Rightarrow> int" where
  \<comment> \<open>The day of the month (1 to 31) of a day number, Gregorian calendar.\<close>
  "day_of_month days =
     (let z = days + 719468;
          doe = z mod 146097;
          yoe = (doe - doe div 1460 + doe div 36524 - doe div 146096) div 365;
          doy = doe - (365 * yoe + yoe div 4 - yoe div 100);
          mp = (5 * doy + 2) div 153
      in doy - (153 * mp + 2) div 5 + 1)"

definition month_start :: "int \<Rightarrow> int" where
  \<comment> \<open>\<^verbatim>\<open>.dt.to_period("M").dt.to_timestamp()\<close>: midnight of the first day of the month.\<close>
  "month_start t = (dt_date t - (day_of_month (dt_date t) - 1)) * ns_per_day"

definition to_datetime_date :: "int \<Rightarrow> int" where
  \<comment> \<open>\<^verbatim>\<open>pd.to_datetime\<close> of a \<^verbatim>\<open>datetime.date\<close>: midnight of that day.\<close>
  "to_datetime_date d = d * ns_per_day"

section \<open>load\_data\<close>

definition load_row :: "raw_row \<Rightarrow> int \<Rightarrow> transaction" where
  \<comment> \<open>Lines 49 to 58 on one row, \<open>q\<close> being the row's value of the Quantity column after
      the cast of line 50.\<close>
  "load_row raw q =
     (let p = to_numeric (price raw)
      in \<lparr> BillNo = bill_no raw,
           Itemname = itemname raw,
           Quantity = q,
           Date = date raw,
           Price = p,
           CustomerID = customer_id raw,
           Country = country raw,
           Revenue = mul_int_float q p,
           InvoiceDate = dt_date (date raw),
           InvoiceMonth = month_start (date raw),
           Hour = dt_hour (date raw),
           Weekday = dt_day_name (date raw) \<rparr>)"

definition load_data :: "raw_row list \<Rightarrow> py_error + transaction list" where
  \<comment> \<open>Line 50 works on the whole Quantity column and raises when the cast refuses it;
      then no frame is returned.\<close>
  "load_data raws =
     (case astype_int (map (\<lambda>raw. fillna (Finite 0) (to_numeric (quantity raw))) raws) of
        Inl e \<Rightarrow> Inl e
      | Inr qs \<Rightarrow> Inr (map (\<lambda>(raw, q). load_row raw q) (zip raws qs)))"

section \<open>The sidebar and its widgets\<close>

text \<open>
  Streamlit itself is not part of the repository. What Streamlit's session state holds for
  the widgets is a value of \<open>session\<close>, one field per widget key of the source;
  \<open>None\<close> means that it holds no value for the key (the widget was never touched, or
  Streamlit has dropped the value), and the widget answers with the default the code
  passes to it. \<open>today\<close> is the answer of \<^verbatim>\<open>date.today()\<close>.
\<close>

datatype date_value = DateTuple "int list" | DateScalar int

datatype top_mode = Quantite_vendue | Chiffre_affaires

datatype freq = Jour | Mois

record session =
  today :: int
  periode_filtre :: "date_value option"
  filtre_pays :: "string list option"
  filtre_quantite :: "int option"
  freq_radio :: freq
  top_mode :: top_mode
  top_n_slider :: "int option"
  top_countries_slider :: "int option"

datatype message =
    Aucune_donnee_disponible
  | Aucune_ligne_apres_filtres
  | Toutes_les_lignes_ont_Quantity int
  | Aucune_donnee_produits
  | Aucun_produit_apres_filtrage
  | Un_seul_produit
  | Aucune_donnee_paniers
  | Aucune_donnee_geographique
  | Aucun_pays_trouve
  | Un_seul_pays

definition date_input :: "int \<times> int \<Rightarrow> date_value option \<Rightarrow> date_value" where
  \<comment> \<open>\<^verbatim>\<open>st.sidebar.date_input("Periode", value=(min_date, max_date))\<close>: a date or a
      tuple of dates.\<close>
  "date_input val chosen =
     (case chosen of None \<Rightarrow> DateTuple [fst val, snd val] | Some v \<Rightarrow> v)"

definition multiselect :: "string list \<Rightarrow> string list \<Rightarrow> string list option \<Rightarrow> string list" where
  \<comment> \<open>\<^verbatim>\<open>st.sidebar.multiselect("Pays", options=..., default=...)\<close>\<close>
  "multiselect options dflt chosen = (case chosen of None \<Rightarrow> dflt | Some sel \<Rightarrow> sel)"

text \<open>
  \<^verbatim>\<open>st.slider\<close> is Streamlit's; the source calls it with \<^verbatim>\<open>min_value\<close>,
  \<^verbatim>\<open>max_value\<close>, \<^verbatim>\<open>value\<close> and a key. Streamlit does not clamp: a slider whose key
  holds a value below \<^verbatim>\<open>min_value\<close> raises StreamlitValueBelowMinError, one whose key
  holds a value above \<^verbatim>\<open>max_value\<close> raises StreamlitValueAboveMaxError; a value inside
  the range is returned as it is, and a key that holds no value gives the default
  \<^verbatim>\<open>value\<close>.
\<close>

definition slider :: "int \<Rightarrow> int \<Rightarrow> int \<Rightarrow> int option \<Rightarrow> py_error + int" where
  "slider min_value max_value val chosen =
     (case chosen of
        None \<Rightarrow> Inr val
      | Some v \<Rightarrow>
          if v < min_value then Inl StreamlitValueBelowMinError
          else if max_value < v then Inl StreamlitValueAboveMaxError
          else Inr v)"

section \<open>filter\_data\<close>

text \<open>
  \<^verbatim>\<open>filter_data\<close> assigns to a column of the frame it is given, writes to the sidebar
  and returns a frame. The model returns all three: the frame given, as it is after the
  call, the sidebar messages, and the view returned.
\<close>

record filter_result =
  source :: "transaction list"
  sidebar :: "message list"
  view :: "transaction list"

definition date_bounds :: "date_value \<Rightarrow> py_error + (int \<times> int)" where
  \<comment> \<open>Lines 92 to 98: a tuple of two dates is a range, of any other length its first
      element (IndexError on the empty tuple), a single date both bounds.\<close>
  "date_bounds date_range =
     (case date_range of
        DateTuple ds \<Rightarrow>
          (if length ds = 2 then Inr (ds ! 0, ds ! 1)
           else (case ds of [] \<Rightarrow> Inl IndexError | d # _ \<Rightarrow> Inr (d, d)))
      | DateScalar d \<Rightarrow> Inr (d, d))"

definition quantity_threshold :: "session \<Rightarrow> int \<Rightarrow> int \<Rightarrow> py_error + (message list \<times> int)" where
  \<comment> \<open>Lines 122 to 133.\<close>
  "quantity_threshold s min_quantity max_quantity =
     (if min_quantity = max_quantity
      then Inr ([Toutes_les_lignes_ont_Quantity min_quantity], min_quantity)
      else (case slider min_quantity max_quantity min_quantity (filtre_quantite s) of
              Inl e \<Rightarrow> Inl e
            | Inr threshold \<Rightarrow> Inr ([], threshold)))"

definition filter_data :: "session \<Rightarrow> transaction list \<Rightarrow> py_error + filter_result" where
  "filter_data s df =
     (if df = [] then Inr \<lparr> source = df, sidebar = [Aucune_donnee_disponible], view = df \<rparr>
      else
        let df1 = map (\<lambda>r. r\<lparr> InvoiceDate := dt_date (to_datetime_date (InvoiceDate r)) \<rparr>) df;
            min_date = (case series_min (map InvoiceDate df1) of None \<Rightarrow> today s | Some d \<Rightarrow> d);
            max_date = (case series_max (map InvoiceDate df1) of None \<Rightarrow> today s | Some d \<Rightarrow> d);
            date_range = date_input (min_date, max_date) (periode_filtre s)
        in case date_bounds date_range of
             Inl e \<Rightarrow> Inl e
           | Inr (start_date, end_date) \<Rightarrow>
               let filtered1 = filter (\<lambda>r. start_date \<le> InvoiceDate r \<and> InvoiceDate r \<le> end_date) df1;
                   countries = sort (remdups (dropna (map Country filtered1)));
                   selected_countries = multiselect countries countries (filtre_pays s);
                   filtered2 = filter (\<lambda>r. isin (Country r) selected_countries) filtered1
               in if filtered2 = []
                  then Inr \<lparr> source = df1, sidebar = [Aucune_ligne_apres_filtres], view = filtered2 \<rparr>
                  else
                    (case py_int (series_min (map Quantity filtered2)) of
                       Inl e \<Rightarrow> Inl e
                     | Inr min_quantity \<Rightarrow>
                        (case py_int (series_max (map Quantity filtered2)) of
                           Inl e \<Rightarrow> Inl e
                         | Inr max_quantity \<Rightarrow>
                            (case quantity_threshold s min_quantity max_quantity of
                               Inl e \<Rightarrow> Inl e
                             | Inr (msgs, threshold) \<Rightarrow>
                                 Inr \<lparr> source = df1, sidebar = msgs,
                                       view = filter (\<lambda>r. threshold \<le> Quantity r) filtered2 \<rparr>))))"

section \<open>Grouping and sorting\<close>

definition groupby :: "('r \<Rightarrow> 'k::linorder option) \<Rightarrow> 'r list \<Rightarrow> ('k \<times> 'r list) list" where
  \<comment> \<open>\<^verbatim>\<open>df.groupby(key)\<close> with the defaults \<^verbatim>\<open>sort=True, dropna=True\<close>: one group per
      distinct defined key, in ascending key order; rows with a missing key are in no group.\<close>
  "groupby key df =
     map (\<lambda>k. (k, filter (\<lambda>r. key r = Some k) df)) (sort (remdups (dropna (map key df))))"

text \<open>
  \<^verbatim>\<open>sort_values\<close> is called with its default \<^verbatim>\<open>kind="quicksort"\<close>, numpy's argsort
  of that kind. What numpy promises of it is a permutation of the positions that puts the
  keys in ascending order; the order it gives to equal keys is not fixed. The argsort is
  therefore a parameter of the model, and \<open>argsort_ok\<close> is what is known of it.
\<close>

definition argsort_ok :: "(real list \<Rightarrow> nat list) \<Rightarrow> bool" where
  "argsort_ok argsort \<longleftrightarrow>
     (\<forall>ks. mset (argsort ks) = mset [0..<length ks] \<and> sorted (map (\<lambda>i. ks ! i) (argsort ks)))"

definition nargsort :: "(real list \<Rightarrow> nat list) \<Rightarrow> bool \<Rightarrow> real list \<Rightarrow> nat list" where
  \<comment> \<open>pandas' \<^verbatim>\<open>nargsort\<close> on keys without NaN: for a descending sort the keys and their
      positions are reversed, sorted ascending, and the result is reversed.\<close>
  "nargsort argsort ascending items =
     (let idx = [0..<length items]
      in if ascending then map (\<lambda>i. idx ! i) (argsort items)
         else rev (map (\<lambda>i. rev idx ! i) (argsort (rev items))))"

definition sort_values :: "(real list \<Rightarrow> nat list) \<Rightarrow> bool \<Rightarrow> ('r \<Rightarrow> real) \<Rightarrow> 'r list \<Rightarrow> 'r list" where
  "sort_values argsort ascending col rows =
     map (\<lambda>i. rows ! i) (nargsort argsort ascending (map col rows))"

definition stable_argsort :: "real list \<Rightarrow> nat list" where
  \<comment> \<open>An argsort that keeps equal keys in their order (numpy's \<^verbatim>\<open>kind="stable"\<close>).\<close>
  "stable_argsort ks = sort_key (\<lambda>i. ks ! i) [0..<length ks]"

definition reversing_argsort :: "real list \<Rightarrow> nat list" where
  \<comment> \<open>An argsort that puts equal keys in the reverse of their order.\<close>
  "reversing_argsort ks = rev (sort_key (\<lambda>i. - (ks ! i)) [0..<length ks])"

section \<open>The sections of the dashboard\<close>

subsection \<open>kpi\_section\<close>

datatype metric = Shown int | N_A

definition np_isnan :: "nat \<Rightarrow> bool" where
  \<comment> \<open>\<^verbatim>\<open>np.isnan\<close> of the integer \<^verbatim>\<open>nunique()\<close> returns: an integer is never NaN.\<close>
  "np_isnan n = False"

record kpi =
  kpi_transactions :: nat
  kpi_articles :: nat
  kpi_clients :: metric
  kpi_chiffre_affaires :: real

definition kpi_section :: "transaction list \<Rightarrow> kpi" where
  "kpi_section df =
     (let n_transactions = nunique (map BillNo df);
          n_items = nunique (map Itemname df);
          n_customers = nunique (map CustomerID df);
          total_revenue = series_sum (map Revenue df)
      in \<lparr> kpi_transactions = n_transactions,
           kpi_articles = n_items,
           kpi_clients = (if \<not> np_isnan n_customers then Shown (int n_customers) else N_A),
           kpi_chiffre_affaires = total_revenue \<rparr>)"

subsection \<open>transactions\_over\_time\<close>

definition transactions_over_time :: "session \<Rightarrow> transaction list \<Rightarrow> (int \<times> nat) list" where
  "transactions_over_time s df =
     (case freq_radio s of
        Jour \<Rightarrow> map (\<lambda>(k, g). (k, nunique (map BillNo g))) (groupby (\<lambda>r. Some (InvoiceDate r)) df)
      | Mois \<Rightarrow> map (\<lambda>(k, g). (k, nunique (map BillNo g))) (groupby (\<lambda>r. Some (InvoiceMonth r)) df))"

subsection \<open>top\_products\<close>

record product_row =
  item :: string
  quantity_sold :: int
  revenue :: real
  n_transactions :: nat

definition product_agg :: "transaction list \<Rightarrow> product_row list" where
  \<comment> \<open>Lines 219 to 227.\<close>
  "product_agg df =
     map (\<lambda>(k, g). \<lparr> item = k,
                     quantity_sold = int64_sum (map Quantity g),
                     revenue = series_sum (map Revenue g),
                     n_transactions = nunique (map BillNo g) \<rparr>)
         (groupby Itemname df)"

definition value_col :: "top_mode \<Rightarrow> product_row \<Rightarrow> real" where
  "value_col mode = (case mode of Quantite_vendue \<Rightarrow> (\<lambda>r. real_of_int (quantity_sold r))
                                | Chiffre_affaires \<Rightarrow> revenue)"

text \<open>
  A section returns early with an information message (\<open>Inl\<close> of a message), or shows
  a table and what it wrote to the sidebar; or it raises, when a slider does.
\<close>

definition top_n :: "message \<Rightarrow> int \<Rightarrow> int option \<Rightarrow> py_error + (message list \<times> int)" where
  \<comment> \<open>Lines 243 to 253, and 354 to 365: no slider for a single row.\<close>
  "top_n single n chosen =
     (if n = 1 then Inr ([single], 1)
      else (case slider 1 n (min 10 n) chosen of
              Inl e \<Rightarrow> Inl e
            | Inr v \<Rightarrow> Inr ([], v)))"

definition top_products ::
  "(real list \<Rightarrow> nat list) \<Rightarrow> session \<Rightarrow> transaction list
     \<Rightarrow> py_error + (message + (message list \<times> product_row list))" where
  "top_products argsort s df =
     (if df = [] then Inr (Inl Aucune_donnee_produits)
      else
        let agg = sort_values argsort False (value_col (top_mode s)) (product_agg df);
            n_products = int (length agg)
        in if n_products = 0 then Inr (Inl Aucun_produit_apres_filtrage)
           else
             (case top_n Un_seul_produit n_products (top_n_slider s) of
                Inl e \<Rightarrow> Inl e
              | Inr (msgs, n) \<Rightarrow> Inr (Inr (msgs, df_head n agg))))"

subsection \<open>basket\_analysis\<close>

record basket =
  bill :: string
  basket_size :: nat
  quantity_total :: int
  basket_revenue :: real

record basket_report =
  mean_basket_size :: float64
  mean_quantity_total :: float64
  mean_revenue :: float64
  size_counts :: "(nat \<times> nat) list"

definition baskets :: "transaction list \<Rightarrow> basket list" where
  \<comment> \<open>Lines 282 to 286.\<close>
  "baskets df =
     map (\<lambda>(k, g). \<lparr> bill = k,
                     basket_size = nunique (map Itemname g),
                     quantity_total = int64_sum (map Quantity g),
                     basket_revenue = series_sum (map Revenue g) \<rparr>)
         (groupby BillNo df)"

definition value_counts_sorted :: "nat list \<Rightarrow> (nat \<times> nat) list" where
  \<comment> \<open>Lines 297 to 303: \<^verbatim>\<open>value_counts()\<close>, then sorted by the value; the values are
      distinct, so the sorted table is the same for every sorting algorithm.\<close>
  "value_counts_sorted xs = map (\<lambda>v. (v, count_list xs v)) (sort (remdups xs))"

definition basket_analysis :: "transaction list \<Rightarrow> message + basket_report" where
  "basket_analysis df =
     (if df = [] then Inl Aucune_donnee_paniers
      else
        let bs = baskets df
        in Inr \<lparr> mean_basket_size = series_mean (map (\<lambda>b. real (basket_size b)) bs),
                 mean_quantity_total = series_mean (map (\<lambda>b. real_of_int (quantity_total b)) bs),
                 mean_revenue = series_mean (map basket_revenue bs),
                 size_counts = value_counts_sorted (map basket_size bs) \<rparr>)"

subsection \<open>country\_analysis\<close>

record country_row =
  country_name :: string
  transactions :: nat
  country_revenue :: real

definition country_stats :: "(real list \<Rightarrow> nat list) \<Rightarrow> transaction list \<Rightarrow> country_row list" where
  \<comment> \<open>Lines 338 to 346.\<close>
  "country_stats argsort df =
     sort_values argsort False country_revenue
       (map (\<lambda>(k, g). \<lparr> country_name = k,
                        transactions = nunique (map BillNo g),
                        country_revenue = series_sum (map Revenue g) \<rparr>)
            (groupby Country df))"

definition country_analysis ::
  "(real list \<Rightarrow> nat list) \<Rightarrow> session \<Rightarrow> transaction list
     \<Rightarrow> py_error + (message + (message list \<times> country_row list))" where
  "country_analysis argsort s df =
     (if df = [] then Inr (Inl Aucune_donnee_geographique)
      else
        let stats = country_stats argsort df;
            n_countries = int (length stats)
        in if n_countries = 0 then Inr (Inl Aucun_pays_trouve)
           else
             (case top_n Un_seul_pays n_countries (top_countries_slider s) of
                Inl e \<Rightarrow> Inl e
              | Inr (msgs, top_countries) \<Rightarrow> Inr (Inr (msgs, df_head top_countries stats))))"

subsection \<open>temporal\_pattern\<close>

record heat_row =
  heat_weekday :: "string option"
  heat_hour :: int
  heat_transactions :: nat

definition categorical :: "string list \<Rightarrow> string \<Rightarrow> string option" where
  \<comment> \<open>\<^verbatim>\<open>pd.Categorical(values, categories=...)\<close>: a value that is no category becomes NaN.\<close>
  "categorical categories v = (if v \<in> set categories then Some v else None)"

definition temporal_pattern :: "transaction list \<Rightarrow> heat_row list" where
  \<comment> \<open>Lines 392 to 409.\<close>
  "temporal_pattern df =
     map (\<lambda>(k, g). \<lparr> heat_weekday = categorical weekday_order (fst k),
                     heat_hour = snd k,
                     heat_transactions = nunique (map BillNo g) \<rparr>)
         (groupby (\<lambda>r. Some (Weekday r, Hour r)) df)"

section \<open>Example inputs\<close>

text \<open>The three rows of the scenario in section 8 of the specification.\<close>

definition scenario_raws :: "raw_row list" where
  "scenario_raws =
     [\<lparr> bill_no = Some ''B1'', itemname = Some ''Mug'', quantity = Numeric (Finite 2),
         date = 1609840800000000000, price = Numeric 3, customer_id = Some 1,
         country = Some ''UK'' \<rparr>,
      \<lparr> bill_no = Some ''B1'', itemname = Some ''Plate'', quantity = Numeric (Finite 1),
         date = 1609840800000000000, price = Numeric 5, customer_id = Some 1,
         country = Some ''UK'' \<rparr>,
      \<lparr> bill_no = Some ''B2'', itemname = Some ''Mug'', quantity = Numeric (Finite 1),
         date = 1612220400000000000, price = Numeric 3, customer_id = None,
         country = Some ''FR'' \<rparr>]"

definition scenario :: "transaction list" where
  "scenario = projr (load_data scenario_raws)"

text \<open>Rows whose quantity and price cannot be read, or are missing.\<close>

definition unparsable_raws :: "raw_row list" where
  "unparsable_raws =
     [\<lparr> bill_no = Some ''B3'', itemname = Some ''Cup'', quantity = NonNumeric ''two'',
         date = 1609840800000000000, price = NonNumeric ''n/a'', customer_id = None,
         country = None \<rparr>,
      \<lparr> bill_no = Some ''B4'', itemname = Some ''Cup'', quantity = Missing,
         date = 1609840800000000000, price = Numeric (5 / 2), customer_id = None,
         country = Some ''UK'' \<rparr>]"

definition unparsable :: "transaction list" where
  "unparsable = projr (load_data unparsable_raws)"


text \<open>Three rows of quantities 1, 3 and 5.\<close>

definition stepped_raws :: "raw_row list" where
  "stepped_raws =
     [\<lparr> bill_no = Some ''B10'', itemname = Some ''Cup'', quantity = Numeric (Finite 1),
         date = 1609840800000000000, price = Numeric 2, customer_id = Some 1,
         country = Some ''UK'' \<rparr>,
      \<lparr> bill_no = Some ''B11'', itemname = Some ''Mug'', quantity = Numeric (Finite 3),
         date = 1609840800000000000, price = Numeric 3, customer_id = Some 1,
         country = Some ''UK'' \<rparr>,
      \<lparr> bill_no = Some ''B12'', itemname = Some ''Plate'', quantity = Numeric (Finite 5),
         date = 1609840800000000000, price = Numeric 5, customer_id = Some 2,
         country = Some ''UK'' \<rparr>]"

definition stepped :: "transaction list" where
  "stepped = projr (load_data stepped_raws)"

text \<open>
  Four products, the last two of them sold in equal quantity, and a row whose Itemname
  is missing.
\<close>

definition four_products_raws :: "raw_row list" where
  "four_products_raws =
     [\<lparr> bill_no = Some ''B5'', itemname = Some ''Apple'', quantity = Numeric (Finite 1),
         date = 1609840800000000000, price = Numeric 2, customer_id = Some 7,
         country = Some ''UK'' \<rparr>,
      \<lparr> bill_no = Some ''B6'', itemname = Some ''Banana'', quantity = Numeric (Finite 2),
         date = 1609840800000000000, price = Numeric 2, customer_id = Some 8,
         country = Some ''UK'' \<rparr>,
      \<lparr> bill_no = Some ''B7'', itemname = Some ''Cherry'', quantity = Numeric (Finite 3),
         date = 1609840800000000000, price = Numeric 2, customer_id = Some 7,
         country = Some ''UK'' \<rparr>,
      \<lparr> bill_no = Some ''B8'', itemname = Some ''Damson'', quantity = Numeric (Finite 3),
         date = 1609840800000000000, price = Numeric 2, customer_id = Some 8,
         country = Some ''UK'' \<rparr>]"

definition four_products :: "transaction list" where
  "four_products = projr (load_data four_products_raws)"

definition no_item_raws :: "raw_row list" where
  "no_item_raws =
     [\<lparr> bill_no = Some ''B7'', itemname = None, quantity = Numeric (Finite 1),
         date = 1609840800000000000, price = Numeric 2, customer_id = Some 9,
         country = Some ''UK'' \<rparr>]"

definition no_item :: "transaction list" where
  "no_item = projr (load_data no_item_raws)"

text \<open>
  A session that holds no value for any widget; one that holds 2 for the quantity slider;
  one that holds 9 for the slider of the number of products; and one whose period is the
  single day 2020-01-01, on which the scenario has no row.
\<close>

definition untouched :: session where
  "untouched = \<lparr> today = 0, periode_filtre = None, filtre_pays = None, filtre_quantite = None,
                 freq_radio = Jour, top_mode = Quantite_vendue, top_n_slider = None,
                 top_countries_slider = None \<rparr>"

definition quantity_two :: session where
  "quantity_two = untouched \<lparr> filtre_quantite := Some 2 \<rparr>"

definition nine_products :: session where
  "nine_products = untouched \<lparr> top_n_slider := Some 9 \<rparr>"

definition other_day :: session where
  "other_day = untouched \<lparr> periode_filtre := Some (DateScalar 18262) \<rparr>"

section \<open>Properties of load\_data\<close>

lemma is_finite_fillna:
  "is_finite (fillna (Finite 0) (to_numeric c)) \<longleftrightarrow> c \<noteq> Numeric PosInf \<and> c \<noteq> Numeric NegInf"
proof (cases c)
  case (Numeric x)
  then show ?thesis by (cases x) (simp_all add: is_finite_def fillna_def to_numeric_def)
qed (simp_all add: is_finite_def fillna_def to_numeric_def)

lemma map_zip_map: "map (\<lambda>(x, y). f x y) (zip xs (map g xs)) = map (\<lambda>x. f x (g x)) xs"
  by (induction xs) simp_all

lemma load_data_cases:
  "load_data raws =
     (if \<forall>raw\<in>set raws. quantity raw \<noteq> Numeric PosInf \<and> quantity raw \<noteq> Numeric NegInf
      then Inr (map (\<lambda>raw. load_row raw (cast_int64 (fillna (Finite 0) (to_numeric (quantity raw))))) raws)
      else Inl IntCastingNaNError)"
  by (simp add: load_data_def astype_int_def is_finite_fillna map_zip_map)





section \<open>Properties of the filters\<close>

lemma dt_date_to_datetime_date: "dt_date (to_datetime_date d) = d"
  by (simp add: dt_date_def to_datetime_date_def ns_per_day_def ns_per_hour_def)

lemma set_dropna: "set (dropna vs) = {x. Some x \<in> set vs}"
  by (induction vs) (auto split: option.splits)

lemma series_min_eq: "xs \<noteq> [] \<Longrightarrow> series_min xs = Some (Min (set xs))"
  using Min.set_eq_fold[of "hd xs" "tl xs"] by (cases xs) simp_all

lemma series_max_eq: "xs \<noteq> [] \<Longrightarrow> series_max xs = Some (Max (set xs))"
  using Max.set_eq_fold[of "hd xs" "tl xs"] by (cases xs) simp_all

lemma filter_data_empty: "filter_data s [] = Inr \<lparr> source = [], sidebar = [Aucune_donnee_disponible], view = [] \<rparr>"
  by (simp add: filter_data_def)

lemma filter_data_nonempty:
  assumes "df \<noteq> []"
  shows "filter_data s df =
    (case date_bounds (date_input (Min (set (map InvoiceDate df)), Max (set (map InvoiceDate df))) (periode_filtre s)) of
       Inl e \<Rightarrow> Inl e
     | Inr (start_date, end_date) \<Rightarrow>
         let filtered1 = filter (\<lambda>r. start_date \<le> InvoiceDate r \<and> InvoiceDate r \<le> end_date) df;
             countries = sort (remdups (dropna (map Country filtered1)));
             filtered2 = filter (\<lambda>r. isin (Country r) (multiselect countries countries (filtre_pays s))) filtered1
         in if filtered2 = []
            then Inr \<lparr> source = df, sidebar = [Aucune_ligne_apres_filtres], view = [] \<rparr>
            else
              (case quantity_threshold s (Min (set (map Quantity filtered2))) (Max (set (map Quantity filtered2))) of
                 Inl e \<Rightarrow> Inl e
               | Inr (msgs, threshold) \<Rightarrow>
                   Inr \<lparr> source = df, sidebar = msgs, view = filter (\<lambda>r. threshold \<le> Quantity r) filtered2 \<rparr>))"
proof -
  have m: "map (\<lambda>r. r\<lparr> InvoiceDate := dt_date (to_datetime_date (InvoiceDate r)) \<rparr>) df = df"
    by (simp add: dt_date_to_datetime_date)
  have d: "map InvoiceDate df \<noteq> []" using assms by simp
  show ?thesis
    unfolding filter_data_def m Let_def
    using assms
    by (auto simp: series_min_eq[OF d] series_max_eq[OF d] series_min_eq series_max_eq py_int_def
        split: sum.splits prod.splits)
qed

lemma filter_data_bounds:
  assumes "df \<noteq> []"
    and "date_bounds (date_input (Min (set (map InvoiceDate df)), Max (set (map InvoiceDate df))) (periode_filtre s)) = Inr (a, b)"
  shows "filter_data s df =
    (let F1 = filter (\<lambda>r. a \<le> InvoiceDate r \<and> InvoiceDate r \<le> b) df;
         cs = sort (remdups (dropna (map Country F1)));
         F2 = filter (\<lambda>r. isin (Country r) (multiselect cs cs (filtre_pays s))) F1
     in if F2 = [] then Inr \<lparr> source = df, sidebar = [Aucune_ligne_apres_filtres], view = [] \<rparr>
        else (case quantity_threshold s (Min (set (map Quantity F2))) (Max (set (map Quantity F2))) of
                Inl e \<Rightarrow> Inl e
              | Inr (msgs, t) \<Rightarrow>
                  Inr \<lparr> source = df, sidebar = msgs, view = filter (\<lambda>r. t \<le> Quantity r) F2 \<rparr>))"
  unfolding filter_data_nonempty[OF assms(1)] assms(2)
  by (simp only: sum.case split_conv Let_def)

text \<open>
  Claim C4. \<^verbatim>\<open>filter_data\<close> leaves the frame it is given as it was: whenever it
  returns, every row and every column of the source, InvoiceDate included, has the value
  it had before the call. The assignment of lines 74 and 75 does write the InvoiceDate
  column, and writes back the dates that were there.
\<close>

theorem filter_data_source_unchanged:
  assumes "filter_data s df = Inr res"
  shows "source res = df"
proof (cases "df = []")
  case True
  with assms show ?thesis by (auto simp: filter_data_def)
next
  case False
  from assms show ?thesis
    unfolding filter_data_nonempty[OF False]
    by (auto simp: Let_def split: sum.splits prod.splits if_splits)
qed

theorem filter_data_source_unchanged_witness:
  "filter_data quantity_two scenario = Inr (projr (filter_data quantity_two scenario))
   \<and> source (projr (filter_data quantity_two scenario)) = scenario
   \<and> map Itemname (view (projr (filter_data quantity_two scenario))) = [Some ''Mug'']"
proof -
  have h: "filter_data quantity_two scenario = Inr (projr (filter_data quantity_two scenario))"
    by code_simp
  have v: "map Itemname (view (projr (filter_data quantity_two scenario))) = [Some ''Mug'']"
    by code_simp
  from filter_data_source_unchanged [OF h] h v show ?thesis by blast
qed

lemma filter_data_view_nonempty:
  assumes "filter_data s df = Inr res" and "view res \<noteq> []"
  obtains a b sel msgs t where
    "df \<noteq> []"
    "date_bounds (date_input (Min (set (map InvoiceDate df)), Max (set (map InvoiceDate df))) (periode_filtre s)) = Inr (a, b)"
    "sel = (let cs = sort (remdups (dropna (map Country (filter (\<lambda>r. a \<le> InvoiceDate r \<and> InvoiceDate r \<le> b) df))))
            in multiselect cs cs (filtre_pays s))"
    "quantity_threshold s
        (Min (set (map Quantity (filter (\<lambda>r. isin (Country r) sel) (filter (\<lambda>r. a \<le> InvoiceDate r \<and> InvoiceDate r \<le> b) df)))))
        (Max (set (map Quantity (filter (\<lambda>r. isin (Country r) sel) (filter (\<lambda>r. a \<le> InvoiceDate r \<and> InvoiceDate r \<le> b) df)))))
       = Inr (msgs, t)"
    "view res = filter (\<lambda>r. t \<le> Quantity r) (filter (\<lambda>r. isin (Country r) sel) (filter (\<lambda>r. a \<le> InvoiceDate r \<and> InvoiceDate r \<le> b) df))"
    "sidebar res = msgs"
proof -
  have ne: "df \<noteq> []" using assms by (auto simp: filter_data_def)
  show thesis
    using assms that[OF ne]
    unfolding filter_data_nonempty[OF ne]
    by (auto simp: Let_def split: sum.splits prod.splits if_splits)
qed

lemma date_bounds_default: "date_bounds (date_input (lo, hi) None) = Inr (lo, hi)"
  by (simp add: date_bounds_def date_input_def)

lemma date_input_chosen: "date_input v (Some c) = c"
  by (simp add: date_input_def)

text \<open>
  On the view a first pass returned, the period and the country stage of a second pass
  under the same session keep every row: what the second pass returns is decided by its
  quantity stage.
\<close>

lemma filter_data_second_pass:
  assumes res: "filter_data s df = Inr res" and ne: "view res \<noteq> []"
  shows "filter_data s (view res) =
    (case quantity_threshold s (Min (set (map Quantity (view res)))) (Max (set (map Quantity (view res)))) of
       Inl e \<Rightarrow> Inl e
     | Inr (msgs, t) \<Rightarrow>
         Inr \<lparr> source = view res, sidebar = msgs, view = filter (\<lambda>r. t \<le> Quantity r) (view res) \<rparr>)"
proof -
  define V where "V = view res"
  have Vne: "V \<noteq> []" using ne by (simp add: V_def)
  from res ne obtain a b sel t where
    db: "date_bounds (date_input (Min (set (map InvoiceDate df)), Max (set (map InvoiceDate df))) (periode_filtre s)) = Inr (a, b)"
    and sel: "sel = (let cs = sort (remdups (dropna (map Country (filter (\<lambda>r. a \<le> InvoiceDate r \<and> InvoiceDate r \<le> b) df))))
            in multiselect cs cs (filtre_pays s))"
    and view: "view res = filter (\<lambda>r. t \<le> Quantity r) (filter (\<lambda>r. isin (Country r) sel) (filter (\<lambda>r. a \<le> InvoiceDate r \<and> InvoiceDate r \<le> b) df))"
    by (rule filter_data_view_nonempty)
  have Vdate: "\<forall>r\<in>set V. a \<le> InvoiceDate r \<and> InvoiceDate r \<le> b" unfolding V_def view by auto
  have Vsel: "\<forall>r\<in>set V. isin (Country r) sel" unfolding V_def view by auto
  obtain a' b' where
    db': "date_bounds (date_input (Min (set (map InvoiceDate V)), Max (set (map InvoiceDate V))) (periode_filtre s)) = Inr (a', b')"
    and Vdate': "\<forall>r\<in>set V. a' \<le> InvoiceDate r \<and> InvoiceDate r \<le> b'"
  proof (cases "periode_filtre s")
    case None
    show thesis
    proof (rule that)
      show "date_bounds (date_input (Min (set (map InvoiceDate V)), Max (set (map InvoiceDate V))) (periode_filtre s))
          = Inr (Min (set (map InvoiceDate V)), Max (set (map InvoiceDate V)))"
        using None by (simp add: date_bounds_default)
      show "\<forall>r\<in>set V. Min (set (map InvoiceDate V)) \<le> InvoiceDate r \<and> InvoiceDate r \<le> Max (set (map InvoiceDate V))"
        by simp
    qed
  next
    case (Some c)
    show thesis
    proof (rule that)
      show "date_bounds (date_input (Min (set (map InvoiceDate V)), Max (set (map InvoiceDate V))) (periode_filtre s)) = Inr (a, b)"
        using db Some by (simp add: date_input_chosen)
      show "\<forall>r\<in>set V. a \<le> InvoiceDate r \<and> InvoiceDate r \<le> b" by (rule Vdate)
    qed
  qed
  have F1': "filter (\<lambda>r. a' \<le> InvoiceDate r \<and> InvoiceDate r \<le> b') V = V"
    using Vdate' by (simp add: filter_id_conv)
  define sel' where "sel' = (let cs = sort (remdups (dropna (map Country V))) in multiselect cs cs (filtre_pays s))"
  have Vsel': "\<forall>r\<in>set V. isin (Country r) sel'"
  proof (cases "filtre_pays s")
    case None
    have "isin (Country r) sel'" if "r \<in> set V" for r
    proof -
      from Vsel that obtain c where c: "Country r = Some c" by (auto simp: isin_def split: option.splits)
      then have "c \<in> set (dropna (map Country V))" using that by (force simp: set_dropna)
      then show ?thesis using None c by (simp add: sel'_def multiselect_def isin_def)
    qed
    then show ?thesis by blast
  next
    case (Some c)
    then have "sel' = sel" by (simp add: sel'_def sel multiselect_def)
    then show ?thesis using Vsel by simp
  qed
  have F2': "filter (\<lambda>r. isin (Country r) sel') V = V"
    using Vsel' by (simp add: filter_id_conv)
  have "filter_data s V =
    (case quantity_threshold s (Min (set (map Quantity V))) (Max (set (map Quantity V))) of
       Inl e \<Rightarrow> Inl e
     | Inr (msgs, t) \<Rightarrow> Inr \<lparr> source = V, sidebar = msgs, view = filter (\<lambda>r. t \<le> Quantity r) V \<rparr>)"
    unfolding filter_data_bounds[OF Vne db']
    by (simp only: Let_def F1' F2'[unfolded sel'_def Let_def] Vne if_False)
  then show ?thesis by (simp only: V_def)
qed

lemma Min_eq_Max_quantities:
  assumes "V \<noteq> []"
  shows "Min (set (map Quantity V)) = Max (set (map Quantity V))
       \<longleftrightarrow> (\<forall>r\<in>set V. \<forall>r'\<in>set V. Quantity r = Quantity r')"
proof
  let ?Q = "set (map Quantity V)"
  assume eq: "Min ?Q = Max ?Q"
  have "Quantity r = Min ?Q" if "r \<in> set V" for r
  proof -
    from that have "Quantity r \<in> ?Q" by simp
    then have "Min ?Q \<le> Quantity r" "Quantity r \<le> Max ?Q" by (simp_all del: set_map)
    with eq show ?thesis by simp
  qed
  then show "\<forall>r\<in>set V. \<forall>r'\<in>set V. Quantity r = Quantity r'" by simp
next
  let ?Q = "set (map Quantity V)"
  assume all: "\<forall>r\<in>set V. \<forall>r'\<in>set V. Quantity r = Quantity r'"
  have ne: "?Q \<noteq> {}" using assms by simp
  have "Min ?Q \<in> ?Q" "Max ?Q \<in> ?Q" using ne by (simp_all del: set_map)
  then obtain r r' where "r \<in> set V" "Quantity r = Min ?Q" "r' \<in> set V" "Quantity r' = Max ?Q"
    by auto
  with all show "Min ?Q = Max ?Q" by metis
qed

lemma quantity_threshold_fixed:
  "quantity_threshold s lo lo = Inr ([Toutes_les_lignes_ont_Quantity lo], lo)"
  by (simp add: quantity_threshold_def)

lemma filter_min_quantity: "filter (\<lambda>r. Min (set (map Quantity V)) \<le> Quantity r) V = V"
  by (simp add: filter_id_conv)

text \<open>
  Claim C3, as the code has it. Whenever \<^verbatim>\<open>filter_data\<close> returns, the rows of the
  view are rows of the source, no more of them than the source has. Filtering the view
  again under the same session returns the same view when the session holds no quantity
  threshold, when the threshold is the quantity of a row of the view, or when the rows
  of the view all have one quantity. When the threshold lies below the quantities of
  the view and these differ, the second pass asks the slider for a value below its
  minimum and raises StreamlitValueBelowMinError.
\<close>

theorem filter_data_subset_idempotent:
  assumes "filter_data s df = Inr res"
  shows "length (view res) \<le> length df \<and> set (view res) \<subseteq> set df
       \<and> ((filtre_quantite s = None
            \<or> (\<exists>r\<in>set (view res). filtre_quantite s = Some (Quantity r))
            \<or> (\<forall>r\<in>set (view res). \<forall>r'\<in>set (view res). Quantity r = Quantity r'))
           \<longrightarrow> (\<exists>res'. filter_data s (view res) = Inr res' \<and> view res' = view res))
       \<and> ((\<exists>t. filtre_quantite s = Some t \<and> (\<forall>r\<in>set (view res). t < Quantity r))
            \<and> (\<exists>r\<in>set (view res). \<exists>r'\<in>set (view res). Quantity r \<noteq> Quantity r')
           \<longrightarrow> filter_data s (view res) = Inl StreamlitValueBelowMinError)"
proof (cases "view res = []")
  case True
  then show ?thesis by (simp add: filter_data_empty)
next
  case False
  define V where "V = view res"
  have Vne: "V \<noteq> []" using False by (simp add: V_def)
  let ?lo = "Min (set (map Quantity V))" and ?hi = "Max (set (map Quantity V))"
  from assms False obtain a b sel msgs t1 where
    qt: "quantity_threshold s
        (Min (set (map Quantity (filter (\<lambda>r. isin (Country r) sel) (filter (\<lambda>r. a \<le> InvoiceDate r \<and> InvoiceDate r \<le> b) df)))))
        (Max (set (map Quantity (filter (\<lambda>r. isin (Country r) sel) (filter (\<lambda>r. a \<le> InvoiceDate r \<and> InvoiceDate r \<le> b) df)))))
       = Inr (msgs, t1)"
    and view: "view res = filter (\<lambda>r. t1 \<le> Quantity r) (filter (\<lambda>r. isin (Country r) sel) (filter (\<lambda>r. a \<le> InvoiceDate r \<and> InvoiceDate r \<le> b) df))"
    by (rule filter_data_view_nonempty)
  define F where "F = filter (\<lambda>r. isin (Country r) sel) (filter (\<lambda>r. a \<le> InvoiceDate r \<and> InvoiceDate r \<le> b) df)"
  have V: "V = filter (\<lambda>r. t1 \<le> Quantity r) F" using view by (simp add: V_def F_def)
  have VF: "set V \<subseteq> set F" unfolding V by auto
  have Fne: "F \<noteq> []" using Vne V by auto
  have sub: "set V \<subseteq> set df" and len: "length V \<le> length df"
    unfolding V F_def
    by (auto intro: order_trans[OF length_filter_le] order_trans[OF length_filter_le length_filter_le])
  have Vt1: "\<forall>r\<in>set V. t1 \<le> Quantity r" unfolding V by simp
  have second: "filter_data s V =
    (case quantity_threshold s ?lo ?hi of
       Inl e \<Rightarrow> Inl e
     | Inr (msgs, t) \<Rightarrow> Inr \<lparr> source = V, sidebar = msgs, view = filter (\<lambda>r. t \<le> Quantity r) V \<rparr>)"
    unfolding V_def by (rule filter_data_second_pass[OF assms False])
  have lo_in: "?lo \<in> set (map Quantity V)" and hi_in: "?hi \<in> set (map Quantity V)"
    using Vne by (simp_all del: set_map)
  have lo_le: "\<forall>r\<in>set V. ?lo \<le> Quantity r" and le_hi: "\<forall>r\<in>set V. Quantity r \<le> ?hi" by simp_all
  \<comment> \<open>the second pass with a fixed threshold, or with the default of the slider\<close>
  have fixed: "\<exists>res'. filter_data s V = Inr res' \<and> view res' = V" if "?lo = ?hi"
  proof -
    have q: "quantity_threshold s ?lo ?hi = Inr ([Toutes_les_lignes_ont_Quantity ?lo], ?lo)"
      unfolding that[symmetric] by (rule quantity_threshold_fixed)
    have "filter_data s V = Inr \<lparr> source = V, sidebar = [Toutes_les_lignes_ont_Quantity ?lo], view = V \<rparr>"
      unfolding second q by (simp only: sum.case split_conv filter_min_quantity)
    then show ?thesis by simp
  qed
  have dflt: "\<exists>res'. filter_data s V = Inr res' \<and> view res' = V" if "filtre_quantite s = None"
  proof (cases "?lo = ?hi")
    case True
    then show ?thesis by (rule fixed)
  next
    case False
    then have "quantity_threshold s ?lo ?hi = Inr ([], ?lo)"
      using that by (simp add: quantity_threshold_def slider_def)
    then show ?thesis using second by (simp add: filter_min_quantity)
  qed
  have among: "\<exists>res'. filter_data s V = Inr res' \<and> view res' = V"
    if r: "r \<in> set V" and t: "filtre_quantite s = Some (Quantity r)" for r
  proof (cases "?lo = ?hi")
    case True
    then show ?thesis by (rule fixed)
  next
    case False
    have range: "?lo \<le> Quantity r" "Quantity r \<le> ?hi" using r lo_le le_hi by blast+
    then have q2: "quantity_threshold s ?lo ?hi = Inr ([], Quantity r)"
      using False t by (simp add: quantity_threshold_def slider_def)
    \<comment> \<open>the first pass took its threshold from the slider too\<close>
    let ?flo = "Min (set (map Quantity F))" and ?fhi = "Max (set (map Quantity F))"
    have "?flo \<noteq> ?fhi"
    proof
      assume "?flo = ?fhi"
      then have "\<forall>r\<in>set F. \<forall>r'\<in>set F. Quantity r = Quantity r'"
        using Min_eq_Max_quantities[OF Fne] by blast
      then have "\<forall>r\<in>set V. \<forall>r'\<in>set V. Quantity r = Quantity r'" using VF by blast
      then have "?lo = ?hi" using Min_eq_Max_quantities[OF Vne] by blast
      with False show False by simp
    qed
    then have "t1 = Quantity r"
      using qt t unfolding F_def[symmetric]
      by (auto simp: quantity_threshold_def slider_def split: if_splits)
    then have "filter (\<lambda>x. Quantity r \<le> Quantity x) V = V"
      using Vt1 by (simp add: filter_id_conv)
    then show ?thesis using second q2 by simp
  qed
  have idem: "(filtre_quantite s = None
            \<or> (\<exists>r\<in>set V. filtre_quantite s = Some (Quantity r))
            \<or> (\<forall>r\<in>set V. \<forall>r'\<in>set V. Quantity r = Quantity r'))
           \<longrightarrow> (\<exists>res'. filter_data s V = Inr res' \<and> view res' = V)"
    using dflt among fixed Min_eq_Max_quantities[OF Vne] by blast
  have below: "(\<exists>t. filtre_quantite s = Some t \<and> (\<forall>r\<in>set V. t < Quantity r))
            \<and> (\<exists>r\<in>set V. \<exists>r'\<in>set V. Quantity r \<noteq> Quantity r')
           \<longrightarrow> filter_data s V = Inl StreamlitValueBelowMinError"
  proof
    assume h: "(\<exists>t. filtre_quantite s = Some t \<and> (\<forall>r\<in>set V. t < Quantity r))
            \<and> (\<exists>r\<in>set V. \<exists>r'\<in>set V. Quantity r \<noteq> Quantity r')"
    then obtain t where t: "filtre_quantite s = Some t" and lt: "\<forall>r\<in>set V. t < Quantity r" by blast
    from h have ne: "?lo \<noteq> ?hi" using Min_eq_Max_quantities[OF Vne] by blast
    obtain r where "r \<in> set V" "Quantity r = ?lo" using lo_in by auto
    with lt have "t < ?lo" by metis
    then have "quantity_threshold s ?lo ?hi = Inl StreamlitValueBelowMinError"
      using ne t by (simp add: quantity_threshold_def slider_def)
    then show "filter_data s V = Inl StreamlitValueBelowMinError"
      using second by simp
  qed
  show ?thesis using sub len idem below unfolding V_def by blast
qed

theorem filter_data_subset_idempotent_witness:
  "filter_data quantity_two scenario = Inr (projr (filter_data quantity_two scenario))
   \<and> map Quantity (view (projr (filter_data quantity_two scenario))) = [2]
   \<and> filtre_quantite quantity_two = Some 2
   \<and> length (view (projr (filter_data quantity_two scenario))) \<le> length scenario
   \<and> view (projr (filter_data quantity_two (view (projr (filter_data quantity_two scenario)))))
       = view (projr (filter_data quantity_two scenario))"
proof -
  define res where "res = projr (filter_data quantity_two scenario)"
  have h: "filter_data quantity_two scenario = Inr res" unfolding res_def by code_simp
  have q: "map Quantity (view res) = [2]" unfolding res_def by code_simp
  have f: "filtre_quantite quantity_two = Some 2" by (simp add: quantity_two_def untouched_def)
  have c: "\<exists>r\<in>set (view res). filtre_quantite quantity_two = Some (Quantity r)"
  proof -
    from q obtain r where "view res = [r]" "Quantity r = 2" by auto
    then show ?thesis using f by simp
  qed
  from filter_data_subset_idempotent [OF h] c obtain res' where
    "length (view res) \<le> length scenario"
    "filter_data quantity_two (view res) = Inr res'" "view res' = view res"
    by blast
  then show ?thesis using h q f unfolding res_def by simp
qed

text \<open>
  An input on which claim C3 fails as it is stated. Of three rows of quantities 1, 3
  and 5 the threshold 2 keeps the rows of quantities 3 and 5; filtering these again under
  the same session does not return them: the slider, now offered the range from 3 to 5,
  is asked for 2 and raises.
\<close>

theorem filter_data_idempotent_counterexample:
  "map Quantity stepped = [1, 3, 5]
   \<and> filtre_quantite quantity_two = Some 2
   \<and> filter_data quantity_two stepped = Inr (projr (filter_data quantity_two stepped))
   \<and> map Quantity (view (projr (filter_data quantity_two stepped))) = [3, 5]
   \<and> filter_data quantity_two (view (projr (filter_data quantity_two stepped)))
       = Inl StreamlitValueBelowMinError"
  by code_simp

lemma date_bounds_total:
  assumes "chosen \<noteq> Some (DateTuple [])"
  shows "\<exists>a b. date_bounds (date_input v chosen) = Inr (a, b)"
proof (cases chosen)
  case None
  then show ?thesis by (cases v) (simp add: date_bounds_default)
next
  case (Some c)
  show ?thesis
  proof (cases c)
    case (DateTuple ds)
    with Some assms have "ds \<noteq> []" by auto
    then show ?thesis using Some DateTuple
      by (cases ds) (auto simp: date_bounds_def date_input_def)
  next
    case (DateScalar d)
    then show ?thesis using Some by (simp add: date_bounds_def date_input_def)
  qed
qed

lemma date_bounds_error:
  assumes "date_bounds (date_input v chosen) = Inl e"
  shows "e = IndexError \<and> chosen = Some (DateTuple [])"
proof -
  have "chosen = Some (DateTuple [])"
    using date_bounds_total[of chosen v] assms by (cases "chosen = Some (DateTuple [])") auto
  moreover have "e = IndexError"
    using assms by (auto simp: date_bounds_def split: date_value.splits if_splits list.splits)
  ultimately show ?thesis by simp
qed

lemma quantity_threshold_error:
  assumes "quantity_threshold s lo hi = Inl e"
  shows "e = StreamlitValueBelowMinError \<or> e = StreamlitValueAboveMaxError"
  using assms
  by (auto simp: quantity_threshold_def slider_def split: if_splits option.splits sum.splits)

lemma quantity_threshold_le_max:
  assumes "quantity_threshold s lo hi = Inr (msgs, t)" and "lo \<le> hi"
  shows "t \<le> hi"
  using assms
  by (auto simp: quantity_threshold_def slider_def split: if_splits option.splits sum.splits)

lemma quantity_threshold_msgs:
  assumes "quantity_threshold s lo hi = Inr (msgs, t)"
  shows "msgs = [] \<or> msgs = [Toutes_les_lignes_ont_Quantity lo]"
  using assms by (auto simp: quantity_threshold_def split: if_splits sum.splits)

lemma quantity_stage_nonempty:
  assumes "F \<noteq> []"
    and "quantity_threshold s (Min (set (map Quantity F))) (Max (set (map Quantity F))) = Inr (msgs, t)"
  shows "filter (\<lambda>r. t \<le> Quantity r) F \<noteq> []"
proof -
  let ?lo = "Min (set (map Quantity F))" and ?hi = "Max (set (map Quantity F))"
  have "?hi \<in> set (map Quantity F)" using assms(1) by (intro Max_in) simp_all
  then obtain r where r: "r \<in> set F" "Quantity r = ?hi" by auto
  have "?lo \<le> ?hi" using \<open>?hi \<in> set (map Quantity F)\<close> by (intro Min_le) simp_all
  with assms(2) have "t \<le> ?hi" by (rule quantity_threshold_le_max)
  with r have "t \<le> Quantity r" by simp
  with r(1) show ?thesis unfolding filter_empty_conv by blast
qed

text \<open>
  What \<^verbatim>\<open>filter_data\<close> raises: the IndexError of the empty date tuple, or what the
  quantity slider raises; never the ValueError of a minimum taken on no row.
\<close>

lemma filter_data_error:
  assumes "filter_data s df = Inl e"
  shows "df \<noteq> [] \<and> (e = IndexError \<and> periode_filtre s = Some (DateTuple [])
                     \<or> e = StreamlitValueBelowMinError \<or> e = StreamlitValueAboveMaxError)"
proof -
  have ne: "df \<noteq> []" using assms by (auto simp: filter_data_def)
  let ?db = "date_bounds (date_input (Min (set (map InvoiceDate df)), Max (set (map InvoiceDate df))) (periode_filtre s))"
  show ?thesis
  proof (cases ?db)
    case (Inl e')
    then have "filter_data s df = Inl e'"
      unfolding filter_data_nonempty[OF ne] by simp
    with assms have "e' = e" by simp
    with Inl date_bounds_error ne show ?thesis by blast
  next
    case (Inr ab)
    obtain a b where "ab = (a, b)" by (cases ab)
    with Inr have db: "?db = Inr (a, b)" by simp
    from assms have "\<exists>lo hi. quantity_threshold s lo hi = Inl e"
      unfolding filter_data_bounds[OF ne db]
      by (auto simp: Let_def split: if_splits sum.splits prod.splits)
    then show ?thesis using ne quantity_threshold_error by blast
  qed
qed

lemma filter_data_result:
  assumes "filter_data s df = Inr res"
  shows "(df = [] \<and> sidebar res = [Aucune_donnee_disponible] \<and> view res = [])
       \<or> (df \<noteq> [] \<and> sidebar res = [Aucune_ligne_apres_filtres] \<and> view res = [])
       \<or> (df \<noteq> [] \<and> view res \<noteq> [] \<and> (\<exists>q. sidebar res = [] \<or> sidebar res = [Toutes_les_lignes_ont_Quantity q]))"
proof (cases "df = []")
  case True
  with assms show ?thesis by (auto simp: filter_data_empty)
next
  case False
  obtain a b where db: "date_bounds (date_input (Min (set (map InvoiceDate df)), Max (set (map InvoiceDate df))) (periode_filtre s)) = Inr (a, b)"
    using assms unfolding filter_data_nonempty[OF False]
    by (cases "date_bounds (date_input (Min (set (map InvoiceDate df)), Max (set (map InvoiceDate df))) (periode_filtre s))") auto
  define F2 where "F2 = (let F1 = filter (\<lambda>r. a \<le> InvoiceDate r \<and> InvoiceDate r \<le> b) df;
         cs = sort (remdups (dropna (map Country F1)))
      in filter (\<lambda>r. isin (Country r) (multiselect cs cs (filtre_pays s))) F1)"
  have eq: "filter_data s df = (if F2 = [] then Inr \<lparr> source = df, sidebar = [Aucune_ligne_apres_filtres], view = [] \<rparr>
        else (case quantity_threshold s (Min (set (map Quantity F2))) (Max (set (map Quantity F2))) of
                Inl e \<Rightarrow> Inl e
              | Inr (msgs, t) \<Rightarrow>
                  Inr \<lparr> source = df, sidebar = msgs, view = filter (\<lambda>r. t \<le> Quantity r) F2 \<rparr>))"
    unfolding filter_data_bounds[OF False db] F2_def by (simp only: Let_def)
  show ?thesis
  proof (cases "F2 = []")
    case True
    with eq assms False show ?thesis by auto
  next
    case F: False
    from eq assms F obtain msgs t where
      q: "quantity_threshold s (Min (set (map Quantity F2))) (Max (set (map Quantity F2))) = Inr (msgs, t)"
      and r: "res = \<lparr> source = df, sidebar = msgs, view = filter (\<lambda>r. t \<le> Quantity r) F2 \<rparr>"
      by (auto split: sum.splits prod.splits)
    have "filter (\<lambda>r. t \<le> Quantity r) F2 \<noteq> []"
      by (rule quantity_stage_nonempty[OF F q])
    moreover have "msgs = [] \<or> msgs = [Toutes_les_lignes_ont_Quantity (Min (set (map Quantity F2)))]"
      by (rule quantity_threshold_msgs[OF q])
    ultimately show ?thesis using r False by auto
  qed
qed

lemma filter_data_date_stage_empty:
  assumes "df \<noteq> []" and "periode_filtre s = Some c" and "date_bounds c = Inr (a, b)"
    and "\<forall>r\<in>set df. \<not> (a \<le> InvoiceDate r \<and> InvoiceDate r \<le> b)"
  shows "filter_data s df = Inr \<lparr> source = df, sidebar = [Aucune_ligne_apres_filtres], view = [] \<rparr>"
proof -
  have e: "filter (\<lambda>r. a \<le> InvoiceDate r \<and> InvoiceDate r \<le> b) df = []"
    using assms(4) by (simp add: filter_empty_conv)
  have db: "date_bounds (date_input (Min (set (map InvoiceDate df)), Max (set (map InvoiceDate df))) (periode_filtre s)) = Inr (a, b)"
    using assms(2,3) by (simp add: date_input_chosen)
  show ?thesis
    unfolding filter_data_bounds[OF assms(1) db]
    by (simp add: Let_def e)
qed

text \<open>
  Claim C9. With the country widget untouched, no row whose Country is missing is in the
  view \<^verbatim>\<open>filter_data\<close> returns: the default selection is the list of the defined
  countries of the date-filtered rows, and \<^verbatim>\<open>isin\<close> accepts no missing value. With
  all three widgets untouched the view is exactly the rows of the source whose Country is
  defined.
\<close>

theorem default_countries_exclude_missing:
  assumes "filtre_pays s = None"
  shows "(\<forall>res. filter_data s df = Inr res \<longrightarrow> (\<forall>r\<in>set (view res). Country r \<noteq> None))
       \<and> (periode_filtre s = None \<and> filtre_quantite s = None \<longrightarrow>
            (\<exists>res. filter_data s df = Inr res \<and> view res = filter (\<lambda>r. Country r \<noteq> None) df))"
proof (intro conjI allI impI)
  fix res assume res: "filter_data s df = Inr res"
  show "\<forall>r\<in>set (view res). Country r \<noteq> None"
  proof (cases "view res = []")
    case True
    then show ?thesis by simp
  next
    case False
    from res False obtain a b sel t where
      v: "view res = filter (\<lambda>r. t \<le> Quantity r) (filter (\<lambda>r. isin (Country r) sel) (filter (\<lambda>r. a \<le> InvoiceDate r \<and> InvoiceDate r \<le> b) df))"
      by (rule filter_data_view_nonempty)
    have "Country r \<noteq> None" if "r \<in> set (view res)" for r
    proof -
      from that have "isin (Country r) sel" unfolding v by simp
      then show ?thesis by (cases "Country r") (simp_all add: isin_def)
    qed
    then show ?thesis by blast
  qed
next
  assume d: "periode_filtre s = None \<and> filtre_quantite s = None"
  show "\<exists>res. filter_data s df = Inr res \<and> view res = filter (\<lambda>r. Country r \<noteq> None) df"
  proof (cases "df = []")
    case True
    then show ?thesis by (simp add: filter_data_empty)
  next
    case False
    define F where "F = filter (\<lambda>r. Country r \<noteq> None) df"
    let ?lo = "Min (set (map Quantity F))" and ?hi = "Max (set (map Quantity F))"
    have db: "date_bounds (date_input (Min (set (map InvoiceDate df)), Max (set (map InvoiceDate df))) (periode_filtre s))
        = Inr (Min (set (map InvoiceDate df)), Max (set (map InvoiceDate df)))"
      using d by (simp add: date_bounds_default)
    have F1: "filter (\<lambda>r. Min (set (map InvoiceDate df)) \<le> InvoiceDate r \<and> InvoiceDate r \<le> Max (set (map InvoiceDate df))) df = df"
      by (simp add: filter_id_conv)
    have ms: "multiselect cs cs (filtre_pays s) = cs" for cs
      using assms by (simp add: multiselect_def)
    have iff: "isin (Country r) (sort (remdups (dropna (map Country df)))) \<longleftrightarrow> Country r \<noteq> None"
      if "r \<in> set df" for r
    proof (cases "Country r")
      case None
      then show ?thesis by (simp add: isin_def)
    next
      case (Some c)
      then have "Some c \<in> set (map Country df)" using that by force
      then show ?thesis using Some by (simp add: isin_def set_dropna del: set_map)
    qed
    have F2: "filter (\<lambda>r. isin (Country r) (sort (remdups (dropna (map Country df))))) df = F"
      unfolding F_def by (rule filter_cong[OF refl]) (rule iff)
    have eq: "filter_data s df =
        (if F = [] then Inr \<lparr> source = df, sidebar = [Aucune_ligne_apres_filtres], view = [] \<rparr>
         else (case quantity_threshold s ?lo ?hi of
                 Inl e \<Rightarrow> Inl e
               | Inr (msgs, t) \<Rightarrow>
                   Inr \<lparr> source = df, sidebar = msgs, view = filter (\<lambda>r. t \<le> Quantity r) F \<rparr>))"
      unfolding filter_data_bounds[OF False db]
      by (simp only: Let_def F1 ms F2)
    have "\<exists>res. filter_data s df = Inr res \<and> view res = F"
    proof (cases "F = []")
      case True
      then show ?thesis using eq by simp
    next
      case Fne: False
      obtain msgs where "quantity_threshold s ?lo ?hi = Inr (msgs, ?lo)"
        using d by (cases "?lo = ?hi") (simp_all add: quantity_threshold_def slider_def)
      then have "filter_data s df = Inr \<lparr> source = df, sidebar = msgs, view = F \<rparr>"
        using eq Fne by (simp add: filter_min_quantity)
      then show ?thesis by simp
    qed
    then show ?thesis unfolding F_def .
  qed
qed

theorem default_countries_exclude_missing_witness:
  "filtre_pays untouched = None
   \<and> map Country unparsable = [None, Some ''UK'']
   \<and> map Country (view (projr (filter_data untouched unparsable))) = [Some ''UK'']"
proof -
  have h: "filtre_pays untouched = None"
    and d: "periode_filtre untouched = None \<and> filtre_quantite untouched = None"
    by (simp_all add: untouched_def)
  have c: "map Country unparsable = [None, Some ''UK'']"
    by code_simp
  have f: "map Country (filter (\<lambda>r. Country r \<noteq> None) unparsable) = [Some ''UK'']"
    by code_simp
  from default_countries_exclude_missing [OF h, of unparsable] d
  obtain res where "filter_data untouched unparsable = Inr res"
    and "view res = filter (\<lambda>r. Country r \<noteq> None) unparsable"
    by blast
  then show ?thesis using h c f by simp
qed

section \<open>Properties of grouping\<close>

lemma dropna_map_Some: "dropna (map (\<lambda>r. Some (f r)) xs) = map f xs"
  by (induction xs) simp_all

lemma nunique_card: "nunique vs = card {x. Some x \<in> set vs}"
  by (simp add: nunique_def length_remdups_card_conv set_dropna)

lemma groupby_keys: "map fst (groupby key df) = sort (remdups (dropna (map key df)))"
  by (simp add: groupby_def comp_def)

lemma distinct_groupby_keys: "distinct (map fst (groupby key df))"
  by (simp add: groupby_keys)

lemma set_groupby_keys: "set (map fst (groupby key df)) = {k. \<exists>r\<in>set df. key r = Some k}"
  unfolding groupby_keys by (force simp: set_dropna)

lemma length_groupby: "length (groupby key df) = nunique (map key df)"
  by (simp add: groupby_def nunique_def)

lemma groupby_Nil: "groupby key [] = []"
  by (simp add: groupby_def)

lemma map_groupby:
  "map (\<lambda>(k, g). f k g) (groupby key df)
     = map (\<lambda>k. f k (filter (\<lambda>r. key r = Some k) df)) (sort (remdups (dropna (map key df))))"
  by (simp add: groupby_def comp_def)

lemma sum_list_groupby:
  "sum_list (map (\<lambda>(k, g). f k g) (groupby key df))
     = (\<Sum>k\<in>{k. \<exists>r\<in>set df. key r = Some k}. f k (filter (\<lambda>r. key r = Some k) df))"
proof -
  have "sum_list (map (\<lambda>(k, g). f k g) (groupby key df))
      = sum_list (map (\<lambda>k. f k (filter (\<lambda>r. key r = Some k) df)) (sort (remdups (dropna (map key df)))))"
    by (simp only: map_groupby)
  also have "\<dots> = (\<Sum>k\<in>set (sort (remdups (dropna (map key df)))). f k (filter (\<lambda>r. key r = Some k) df))"
    by (rule sum_list_distinct_conv_sum_set) simp
  also have "set (sort (remdups (dropna (map key df)))) = {k. \<exists>r\<in>set df. key r = Some k}"
    by (force simp: set_dropna)
  finally show ?thesis .
qed

lemma sum_nunique_groupby:
  fixes f :: "'r \<Rightarrow> 'k::linorder" and col :: "'r \<Rightarrow> 'b option"
  assumes one: "\<And>r r'. r \<in> set df \<Longrightarrow> r' \<in> set df \<Longrightarrow> col r = col r' \<Longrightarrow> col r \<noteq> None \<Longrightarrow> f r = f r'"
  shows "sum_list (map (\<lambda>(k, g). nunique (map col g)) (groupby (\<lambda>r. Some (f r)) df)) = nunique (map col df)"
proof -
  let ?K = "{k. \<exists>r\<in>set df. Some (f r) = Some k}"
  let ?B = "\<lambda>k. {b. \<exists>r\<in>set df. f r = k \<and> col r = Some b}"
  have K: "?K = f ` set df" by auto
  have cell: "nunique (map col (filter (\<lambda>r. Some (f r) = Some k) df)) = card (?B k)" for k
    unfolding nunique_card by (rule arg_cong[where f=card]) force
  have "sum_list (map (\<lambda>(k, g). nunique (map col g)) (groupby (\<lambda>r. Some (f r)) df))
      = (\<Sum>k\<in>?K. nunique (map col (filter (\<lambda>r. Some (f r) = Some k) df)))"
    by (rule sum_list_groupby)
  also have "\<dots> = (\<Sum>k\<in>f ` set df. card (?B k))"
    unfolding K by (simp only: cell)
  also have "\<dots> = card (\<Union>k\<in>f ` set df. ?B k)"
  proof (rule card_UN_disjoint[symmetric])
    show "finite (f ` set df)" by simp
    show "\<forall>k\<in>f ` set df. finite (?B k)"
    proof
      fix k :: 'k
      have "?B k \<subseteq> {b. Some b \<in> set (map col df)}" by force
      moreover have "finite {b. Some b \<in> set (map col df)}"
        using finite_set[of "dropna (map col df)"] by (simp only: set_dropna)
      ultimately show "finite (?B k)" by (rule finite_subset)
    qed
    show "\<forall>k\<in>f ` set df. \<forall>k'\<in>f ` set df. k \<noteq> k' \<longrightarrow> ?B k \<inter> ?B k' = {}"
    proof (intro ballI impI)
      fix k k' :: 'k assume "k \<noteq> k'"
      show "?B k \<inter> ?B k' = {}"
      proof (rule ccontr)
        assume "?B k \<inter> ?B k' \<noteq> {}"
        then obtain b r r' where "r \<in> set df" "f r = k" "col r = Some b"
          "r' \<in> set df" "f r' = k'" "col r' = Some b" by blast
        with one[of r r'] \<open>k \<noteq> k'\<close> show False by simp
      qed
    qed
  qed
  also have "(\<Union>k\<in>f ` set df. ?B k) = {b. Some b \<in> set (map col df)}" by force
  finally show ?thesis by (simp only: nunique_card)
qed

lemma sum_count_list_remdups: "sum_list (map (count_list xs) (sort (remdups xs))) = length xs"
proof -
  have "sum_list (map (count_list xs) (sort (remdups xs))) = sum (count_list xs) (set (sort (remdups xs)))"
    by (rule sum_list_distinct_conv_sum_set) simp
  also have "\<dots> = length xs" by (simp add: sum_count_set)
  finally show ?thesis .
qed

lemma value_counts_sorted_total: "sum_list (map snd (value_counts_sorted xs)) = length xs"
  using sum_count_list_remdups[of xs] by (simp add: value_counts_sorted_def comp_def)

lemma length_baskets: "length (baskets df) = nunique (map BillNo df)"
  by (simp add: baskets_def length_groupby)

lemma bills_baskets: "map bill (baskets df) = sort (remdups (dropna (map BillNo df)))"
  by (simp add: baskets_def groupby_def comp_def)

section \<open>Properties of the sections\<close>

subsection \<open>basket\_analysis\<close>

text \<open>
  Claim C10. On a view with rows, \<^verbatim>\<open>basket_analysis\<close> reports; the counts of its
  basket-size histogram add up to the number of distinct BillNo values of the view; there
  is exactly one basket for each of these values; and each of the three means is the sum
  of the column over these baskets divided by their number.
\<close>

theorem basket_histogram_partition:
  assumes "df \<noteq> []"
  shows "\<exists>rep. basket_analysis df = Inr rep
       \<and> sum_list (map snd (size_counts rep)) = nunique (map BillNo df)
       \<and> length (baskets df) = nunique (map BillNo df)
       \<and> distinct (map bill (baskets df))
       \<and> set (map bill (baskets df)) = {b. Some b \<in> set (map BillNo df)}
       \<and> (0 < nunique (map BillNo df) \<longrightarrow>
            mean_basket_size rep
              = Some (sum_list (map (\<lambda>b. real (basket_size b)) (baskets df)) / real (nunique (map BillNo df)))
          \<and> mean_quantity_total rep
              = Some (sum_list (map (\<lambda>b. real_of_int (quantity_total b)) (baskets df)) / real (nunique (map BillNo df)))
          \<and> mean_revenue rep
              = Some (sum_list (map basket_revenue (baskets df)) / real (nunique (map BillNo df))))"
proof -
  define rep where "rep = \<lparr> mean_basket_size = series_mean (map (\<lambda>b. real (basket_size b)) (baskets df)),
                 mean_quantity_total = series_mean (map (\<lambda>b. real_of_int (quantity_total b)) (baskets df)),
                 mean_revenue = series_mean (map basket_revenue (baskets df)),
                 size_counts = value_counts_sorted (map basket_size (baskets df)) \<rparr>"
  have r: "basket_analysis df = Inr rep"
    using assms by (simp add: basket_analysis_def rep_def Let_def)
  have len: "length (baskets df) = nunique (map BillNo df)" by (rule length_baskets)
  have h: "sum_list (map snd (size_counts rep)) = nunique (map BillNo df)"
    by (simp add: rep_def value_counts_sorted_total len)
  have d: "distinct (map bill (baskets df))" by (simp add: bills_baskets)
  have s: "set (map bill (baskets df)) = {b. Some b \<in> set (map BillNo df)}"
    by (simp add: bills_baskets set_dropna del: set_map)
  have m: "series_mean (map g (baskets df)) = Some (sum_list (map g (baskets df)) / real (nunique (map BillNo df)))"
    if "0 < nunique (map BillNo df)" for g :: "basket \<Rightarrow> real"
    using that len by (auto simp: series_mean_def)
  show ?thesis
    apply (rule exI[of _ rep])
    apply (intro conjI impI)
    apply (rule r)
    apply (rule h)
    apply (rule len)
    apply (rule d)
    apply (rule s)
    apply (simp add: rep_def m)
    apply (simp add: rep_def m)
    apply (simp add: rep_def m)
    done
qed

theorem basket_histogram_partition_witness:
  "scenario \<noteq> []
   \<and> size_counts (projr (basket_analysis scenario)) = [(1, 1), (2, 1)]
   \<and> sum_list (map snd (size_counts (projr (basket_analysis scenario)))) = nunique (map BillNo scenario)
   \<and> nunique (map BillNo scenario) = 2
   \<and> mean_basket_size (projr (basket_analysis scenario)) = Some (3 / 2)"
proof -
  have h: "scenario \<noteq> []" by code_simp
  have n: "nunique (map BillNo scenario) = 2" by code_simp
  have c: "size_counts (projr (basket_analysis scenario)) = [(1, 1), (2, 1)]" by code_simp
  have m: "sum_list (map (\<lambda>b. real (basket_size b)) (baskets scenario)) = 3" by code_simp
  have p: "0 < nunique (map BillNo scenario)" using n by simp
  from basket_histogram_partition [OF h] p obtain rep where
    "basket_analysis scenario = Inr rep"
    "sum_list (map snd (size_counts rep)) = nunique (map BillNo scenario)"
    "mean_basket_size rep
       = Some (sum_list (map (\<lambda>b. real (basket_size b)) (baskets scenario)) / real (nunique (map BillNo scenario)))"
    by blast
  then show ?thesis using h n c m by simp
qed

subsection \<open>kpi\_section\<close>

lemma kpi_clients_count: "kpi_clients (kpi_section df) = Shown (int (nunique (map CustomerID df)))"
  by (simp add: kpi_section_def np_isnan_def Let_def)

text \<open>
  Claim C2. On a view in which no row carries a CustomerID, \<^verbatim>\<open>kpi_section\<close> shows
  the number 0 for Clients and not N/A: \<^verbatim>\<open>nunique()\<close> returns an integer, so the NaN
  test of line 154 never takes the N/A branch of line 157. This is so on the frame loaded
  from two rows without CustomerID, and on the view \<^verbatim>\<open>filter_data\<close> returns of it.
\<close>

theorem kpi_clients_no_customer:
  "load_data unparsable_raws = Inr unparsable
   \<and> map CustomerID unparsable = [None, None]
   \<and> kpi_clients (kpi_section unparsable) = Shown 0
   \<and> filter_data untouched unparsable = Inr (projr (filter_data untouched unparsable))
   \<and> map CustomerID (view (projr (filter_data untouched unparsable))) = [None]
   \<and> kpi_clients (kpi_section (view (projr (filter_data untouched unparsable)))) = Shown 0"
  by code_simp

subsection \<open>temporal\_pattern\<close>

lemma dt_day_name_in_order: "dt_day_name t \<in> set weekday_order"
proof -
  have "nat ((dt_date t + 3) mod 7) < length weekday_order"
    by (simp add: weekday_order_def nat_less_iff)
  then show ?thesis unfolding dt_day_name_def by (rule nth_mem)
qed

lemma dt_hour_range: "0 \<le> dt_hour t \<and> dt_hour t \<le> 23"
proof -
  have "0 \<le> dt_hour t" "dt_hour t < 24" by (simp_all add: dt_hour_def)
  then show ?thesis by simp
qed

lemma load_data_derived:
  assumes "load_data raws = Inr loaded" and "r \<in> set loaded"
  shows "Weekday r = dt_day_name (Date r) \<and> Hour r = dt_hour (Date r)"
proof -
  from assms(1) have "loaded = map (\<lambda>raw. load_row raw (cast_int64 (fillna (Finite 0) (to_numeric (quantity raw))))) raws"
    by (simp add: load_data_cases split: if_splits)
  with assms(2) show ?thesis by (auto simp: load_row_def Let_def)
qed

lemma temporal_pattern_map:
  "temporal_pattern df =
     map (\<lambda>k. \<lparr> heat_weekday = categorical weekday_order (fst k), heat_hour = snd k,
                  heat_transactions = nunique (map BillNo (filter (\<lambda>r. (Weekday r, Hour r) = k) df)) \<rparr>)
         (sort (remdups (map (\<lambda>r. (Weekday r, Hour r)) df)))"
  by (simp add: temporal_pattern_def groupby_def comp_def dropna_map_Some)

lemma temporal_pattern_cells:
  assumes loaded: "load_data raws = Inr loaded" and norm: "set df \<subseteq> set loaded"
    and one: "\<forall>r\<in>set df. \<forall>r'\<in>set df. BillNo r = BillNo r' \<and> BillNo r \<noteq> None \<longrightarrow> Date r = Date r'"
  shows "(\<forall>c\<in>set (temporal_pattern df).
            heat_weekday c \<in> Some ` set weekday_order \<and> 0 \<le> heat_hour c \<and> heat_hour c \<le> 23)
       \<and> sum_list (map heat_transactions (temporal_pattern df)) = nunique (map BillNo df)"
proof
  show "\<forall>c\<in>set (temporal_pattern df).
            heat_weekday c \<in> Some ` set weekday_order \<and> 0 \<le> heat_hour c \<and> heat_hour c \<le> 23"
  proof
    fix c assume "c \<in> set (temporal_pattern df)"
    then obtain r where r: "r \<in> set df"
      and c: "heat_weekday c = categorical weekday_order (Weekday r)" "heat_hour c = Hour r"
      unfolding temporal_pattern_map by auto
    from r norm have d: "Weekday r = dt_day_name (Date r)" "Hour r = dt_hour (Date r)"
      using load_data_derived[OF loaded] by blast+
    have "categorical weekday_order (Weekday r) = Some (Weekday r)"
      unfolding d categorical_def using dt_day_name_in_order by simp
    moreover have "Weekday r \<in> set weekday_order" unfolding d by (rule dt_day_name_in_order)
    ultimately show "heat_weekday c \<in> Some ` set weekday_order \<and> 0 \<le> heat_hour c \<and> heat_hour c \<le> 23"
      using c d dt_hour_range[of "Date r"] by simp
  qed
next
  have "map heat_transactions (temporal_pattern df)
      = map (\<lambda>(k, g). nunique (map BillNo g)) (groupby (\<lambda>r. Some (Weekday r, Hour r)) df)"
    by (simp add: temporal_pattern_def comp_def split_beta)
  moreover have "sum_list (map (\<lambda>(k, g). nunique (map BillNo g)) (groupby (\<lambda>r. Some (Weekday r, Hour r)) df))
      = nunique (map BillNo df)"
  proof (rule sum_nunique_groupby)
    fix r r' assume a: "r \<in> set df" "r' \<in> set df" "BillNo r = BillNo r'" "BillNo r \<noteq> None"
    then have "Date r = Date r'" using one by blast
    moreover from a norm have "Weekday r = dt_day_name (Date r) \<and> Hour r = dt_hour (Date r)"
      "Weekday r' = dt_day_name (Date r') \<and> Hour r' = dt_hour (Date r')"
      using load_data_derived[OF loaded] by blast+
    ultimately show "(Weekday r, Hour r) = (Weekday r', Hour r')" by simp
  qed
  ultimately show "sum_list (map heat_transactions (temporal_pattern df)) = nunique (map BillNo df)"
    by simp
qed

text \<open>
  Claim C7. For every view \<^verbatim>\<open>filter_data\<close> returns on loaded data in which the rows of
  one BillNo carry one timestamp, every cell of the heatmap has its Weekday among the seven
  labels Monday to Sunday and its Hour from 0 to 23, and the counts of the cells add up
  to the number of distinct BillNo values of the view.
\<close>

theorem heatmap_cells_and_total:
  assumes "load_data raws = Inr loaded"
    and "filter_data s loaded = Inr res"
    and "\<forall>r\<in>set (view res). \<forall>r'\<in>set (view res).
           BillNo r = BillNo r' \<and> BillNo r \<noteq> None \<longrightarrow> Date r = Date r'"
  shows "(\<forall>c\<in>set (temporal_pattern (view res)).
            heat_weekday c \<in> Some ` set weekday_order \<and> 0 \<le> heat_hour c \<and> heat_hour c \<le> 23)
       \<and> sum_list (map heat_transactions (temporal_pattern (view res))) = nunique (map BillNo (view res))"
proof -
  have "set (view res) \<subseteq> set loaded"
  proof (cases "view res = []")
    case True
    then show ?thesis by simp
  next
    case False
    from assms(2) False obtain a b sel t where
      "view res = filter (\<lambda>r. t \<le> Quantity r) (filter (\<lambda>r. isin (Country r) sel) (filter (\<lambda>r. a \<le> InvoiceDate r \<and> InvoiceDate r \<le> b) loaded))"
      by (rule filter_data_view_nonempty)
    then show ?thesis by auto
  qed
  with assms(1) show ?thesis using assms(3) by (rule temporal_pattern_cells)
qed

theorem heatmap_cells_and_total_witness:
  "load_data scenario_raws = Inr scenario
   \<and> filter_data untouched scenario = Inr (projr (filter_data untouched scenario))
   \<and> map BillNo (view (projr (filter_data untouched scenario))) = [Some ''B1'', Some ''B1'', Some ''B2'']
   \<and> map Date (view (projr (filter_data untouched scenario)))
        = [1609840800000000000, 1609840800000000000, 1612220400000000000]
   \<and> map heat_transactions (temporal_pattern (view (projr (filter_data untouched scenario)))) = [1, 1]
   \<and> sum_list (map heat_transactions (temporal_pattern (view (projr (filter_data untouched scenario)))))
        = nunique (map BillNo (view (projr (filter_data untouched scenario))))"
proof -
  define v where "v = view (projr (filter_data untouched scenario))"
  have l: "load_data scenario_raws = Inr scenario" by code_simp
  have h: "filter_data untouched scenario = Inr (projr (filter_data untouched scenario))"
    by code_simp
  have b: "map BillNo v = [Some ''B1'', Some ''B1'', Some ''B2'']"
    and d: "map Date v = [1609840800000000000, 1609840800000000000, 1612220400000000000]"
    and t: "map heat_transactions (temporal_pattern v) = [1, 1]"
    unfolding v_def by code_simp+
  have len: "length v = 3" using b by (metis length_map length_Cons list.size(3) numeral_3_eq_3)
  have one: "\<forall>r\<in>set v. \<forall>r'\<in>set v. BillNo r = BillNo r' \<and> BillNo r \<noteq> None \<longrightarrow> Date r = Date r'"
  proof -
    obtain x y z where v: "v = [x, y, z]"
      using len by (metis (no_types) length_0_conv length_Suc_conv numeral_3_eq_3)
    with b d show ?thesis by auto
  qed
  from heatmap_cells_and_total [OF l h one [unfolded v_def]]
  have "sum_list (map heat_transactions (temporal_pattern v)) = nunique (map BillNo v)"
    unfolding v_def by blast
  then show ?thesis using l h b d t unfolding v_def by simp
qed

text \<open>
  Claim C8, as the code has it. The heatmap has one cell for each (Weekday, Hour) pair
  that occurs in the view, in ascending order of the pair, and no cell for a pair in
  which no transaction falls; the Weekday of a cell is typed as a categorical over the
  fixed order Monday to Sunday.
\<close>

theorem heatmap_observed_cells:
  "map (\<lambda>c. (heat_weekday c, heat_hour c)) (temporal_pattern df)
     = map (\<lambda>k. (categorical weekday_order (fst k), snd k))
           (sort (remdups (map (\<lambda>r. (Weekday r, Hour r)) df)))
   \<and> length (temporal_pattern df) = card ((\<lambda>r. (Weekday r, Hour r)) ` set df)"
proof
  show "map (\<lambda>c. (heat_weekday c, heat_hour c)) (temporal_pattern df)
     = map (\<lambda>k. (categorical weekday_order (fst k), snd k))
           (sort (remdups (map (\<lambda>r. (Weekday r, Hour r)) df)))"
    by (simp add: temporal_pattern_map comp_def)
  show "length (temporal_pattern df) = card ((\<lambda>r. (Weekday r, Hour r)) ` set df)"
    by (simp add: temporal_pattern_map length_remdups_card_conv)
qed

text \<open>
  The heatmap of the three-row scenario has two cells, not the 168 of a full grid, and no
  cell with a zero count.
\<close>

theorem heatmap_grid_counterexample:
  "temporal_pattern scenario
     = [\<lparr> heat_weekday = Some ''Monday'', heat_hour = 23, heat_transactions = 1 \<rparr>,
        \<lparr> heat_weekday = Some ''Tuesday'', heat_hour = 10, heat_transactions = 1 \<rparr>]
   \<and> length (temporal_pattern scenario) \<noteq> 7 * 24"
  by code_simp

subsection \<open>Sorting\<close>

lemma stable_argsort_ok: "argsort_ok stable_argsort"
  unfolding argsort_ok_def stable_argsort_def
  by (simp add: sorted_sort_key)

lemma sorted_map_rev_neg:
  fixes f :: "'a \<Rightarrow> real"
  assumes "sorted (map (\<lambda>x. - f x) xs)"
  shows "sorted (map f (rev xs))"
proof -
  have "sorted_wrt (\<lambda>x y. f y \<le> f x) xs"
    using assms by (simp add: sorted_map)
  then show ?thesis by (simp add: sorted_map sorted_wrt_rev)
qed

lemma reversing_argsort_ok: "argsort_ok reversing_argsort"
  unfolding argsort_ok_def reversing_argsort_def
proof (intro allI conjI)
  fix ks :: "real list"
  show "mset (rev (sort_key (\<lambda>i. - ks ! i) [0..<length ks])) = mset [0..<length ks]"
    by simp
  have "sorted (map (\<lambda>i. - (ks ! i)) (sort_key (\<lambda>i. - ks ! i) [0..<length ks]))"
    by (rule sorted_sort_key)
  then show "sorted (map ((!) ks) (rev (sort_key (\<lambda>i. - ks ! i) [0..<length ks])))"
    by (rule sorted_map_rev_neg)
qed

lemma argsort_bound:
  assumes "argsort_ok argsort" and "i \<in> set (argsort ks)"
  shows "i < length ks"
proof -
  have "set (argsort ks) = set [0..<length ks]"
    using assms(1) unfolding argsort_ok_def by (metis set_mset_mset)
  with assms(2) show ?thesis by simp
qed

lemma sort_values_desc_rev:
  assumes "argsort_ok argsort"
  shows "sort_values argsort False col rows
       = rev (map (\<lambda>i. rev rows ! i) (argsort (rev (map col rows))))"
proof -
  let ?n = "length rows"
  let ?p = "argsort (rev (map col rows))"
  have b: "i < ?n" if "i \<in> set ?p" for i
    using argsort_bound[OF assms that] by simp
  have "map (\<lambda>i. rows ! i) (map (\<lambda>i. rev [0..<?n] ! i) ?p) = map (\<lambda>i. rev rows ! i) ?p"
  proof (simp only: map_map comp_def, rule map_cong[OF refl])
    fix i assume "i \<in> set ?p"
    then have i: "i < ?n" by (rule b)
    then have "rev [0..<?n] ! i = ?n - Suc i" by (simp add: rev_nth)
    moreover have "rev rows ! i = rows ! (?n - Suc i)" using i by (simp add: rev_nth)
    ultimately show "rows ! (rev [0..<?n] ! i) = rev rows ! i" by simp
  qed
  then show ?thesis
    by (simp add: sort_values_def nargsort_def Let_def rev_map)
qed

lemma mset_sort_values_desc:
  assumes "argsort_ok argsort"
  shows "mset (sort_values argsort False col rows) = mset rows"
proof -
  let ?p = "argsort (rev (map col rows))"
  have "mset ?p = mset [0..<length (rev rows)]"
    using assms unfolding argsort_ok_def by (metis length_map length_rev)
  then have "mset (map (\<lambda>i. rev rows ! i) ?p) = mset (map (\<lambda>i. rev rows ! i) [0..<length (rev rows)])"
    by (metis mset_map)
  also have "\<dots> = mset (rev rows)" by (simp only: map_nth)
  finally show ?thesis by (simp add: sort_values_desc_rev[OF assms])
qed

lemma sorted_sort_values_desc:
  assumes "argsort_ok argsort"
  shows "sorted_wrt (\<lambda>a b. col b \<le> col a) (sort_values argsort False col rows)"
proof -
  let ?ks = "rev (map col rows)"
  let ?p = "argsort ?ks"
  have b: "i < length rows" if "i \<in> set ?p" for i
    using argsort_bound[OF assms that] by simp
  have "sorted (map (\<lambda>i. ?ks ! i) ?p)"
    using assms unfolding argsort_ok_def by blast
  moreover have "map (\<lambda>i. ?ks ! i) ?p = map col (map (\<lambda>i. rev rows ! i) ?p)"
    by (simp only: map_map comp_def, rule map_cong[OF refl]) (simp add: b rev_map)
  ultimately have "sorted (map col (map (\<lambda>i. rev rows ! i) ?p))" by simp
  then have "sorted_wrt (\<lambda>a b. col a \<le> col b) (map (\<lambda>i. rev rows ! i) ?p)"
    by (simp only: sorted_map)
  then have "sorted_wrt (\<lambda>a b. col b \<le> col a) (rev (map (\<lambda>i. rev rows ! i) ?p))"
    by (simp only: sorted_wrt_rev)
  then show ?thesis by (simp only: sort_values_desc_rev[OF assms])
qed

lemma length_sort_values_desc:
  assumes "argsort_ok argsort"
  shows "length (sort_values argsort False col rows) = length rows"
  using mset_sort_values_desc[OF assms, of col rows] by (metis size_mset)

lemma length_product_agg: "length (product_agg df) = nunique (map Itemname df)"
  by (simp add: product_agg_def length_groupby)

subsection \<open>top\_products\<close>

lemma nunique_Nil: "nunique [] = 0"
  by (simp add: nunique_def)

lemma df_head_take: "0 \<le> n \<Longrightarrow> df_head n rows = take (nat n) rows"
  by (simp add: df_head_def)

lemma top_n_single: "top_n single 1 chosen = Inr ([single], 1)"
  by (simp add: top_n_def)

lemma top_n_default: "n \<noteq> 1 \<Longrightarrow> top_n single n None = Inr ([], min 10 n)"
  by (simp add: top_n_def slider_def)

lemma top_n_accepted:
  "n \<noteq> 1 \<Longrightarrow> 1 \<le> v \<Longrightarrow> v \<le> n \<Longrightarrow> top_n single n (Some v) = Inr ([], v)"
  by (simp add: top_n_def slider_def)

lemma top_n_below: "n \<noteq> 1 \<Longrightarrow> v < 1 \<Longrightarrow> top_n single n (Some v) = Inl StreamlitValueBelowMinError"
  by (simp add: top_n_def slider_def)

lemma top_n_above:
  "n \<noteq> 1 \<Longrightarrow> 1 \<le> v \<Longrightarrow> n < v \<Longrightarrow> top_n single n (Some v) = Inl StreamlitValueAboveMaxError"
  by (simp add: top_n_def slider_def)

lemma top_products_nonempty:
  assumes ok: "argsort_ok argsort" and n: "0 < nunique (map Itemname df)"
  shows "top_products argsort s df =
    (case top_n Un_seul_produit (int (nunique (map Itemname df))) (top_n_slider s) of
       Inl e \<Rightarrow> Inl e
     | Inr (msgs, k) \<Rightarrow>
         Inr (Inr (msgs, df_head k (sort_values argsort False (value_col (top_mode s)) (product_agg df)))))"
proof -
  let ?agg = "sort_values argsort False (value_col (top_mode s)) (product_agg df)"
  have ne: "df \<noteq> []" using n by (auto simp: nunique_Nil)
  have len: "length ?agg = nunique (map Itemname df)"
    by (simp add: length_sort_values_desc[OF ok] length_product_agg)
  then have "?agg \<noteq> []" using n by auto
  then show ?thesis using ne len by (simp add: top_products_def Let_def)
qed

text \<open>
  Claim C5, as the code has it. For every argsort that sorts: on a view with at least
  one defined Itemname, when one product remains, or the slider is untouched, or it holds
  a number from 1 to the number of distinct products, \<^verbatim>\<open>top_products\<close> shows a table
  of 1 row, of the smaller of 10 and the number of products, or of the number held; the
  table is the head of the product rows arranged by descending value of the selected
  column, so every row has a value at least that of the rows after it. Which of two rows
  of equal value comes first is left to the argsort. On a view with rows and no defined
  Itemname there is a message and no table. When two products or more remain and the
  slider holds a number below 1 or above their number, the slider raises.
\<close>

theorem top_products_ranked:
  assumes "argsort_ok argsort"
  shows "(0 < nunique (map Itemname df)
          \<and> (nunique (map Itemname df) = 1 \<or> top_n_slider s = None
               \<or> (\<exists>v. top_n_slider s = Some v \<and> 1 \<le> v \<and> v \<le> int (nunique (map Itemname df))))
          \<longrightarrow> (\<exists>msgs top agg. top_products argsort s df = Inr (Inr (msgs, top))
                \<and> length top = (if nunique (map Itemname df) = 1 then 1
                                  else case top_n_slider s of
                                         None \<Rightarrow> min 10 (nunique (map Itemname df))
                                       | Some v \<Rightarrow> min (nat v) (nunique (map Itemname df)))
                \<and> sorted_wrt (\<lambda>a b. value_col (top_mode s) b \<le> value_col (top_mode s) a) top
                \<and> mset agg = mset (product_agg df)
                \<and> sorted_wrt (\<lambda>a b. value_col (top_mode s) b \<le> value_col (top_mode s) a) agg
                \<and> top = take (length top) agg))
       \<and> (df \<noteq> [] \<and> nunique (map Itemname df) = 0
          \<longrightarrow> top_products argsort s df = Inr (Inl Aucun_produit_apres_filtrage))
       \<and> (1 < nunique (map Itemname df) \<longrightarrow>
            (\<forall>v. top_n_slider s = Some v \<and> v < 1
                 \<longrightarrow> top_products argsort s df = Inl StreamlitValueBelowMinError)
          \<and> (\<forall>v. top_n_slider s = Some v \<and> int (nunique (map Itemname df)) < v
                 \<longrightarrow> top_products argsort s df = Inl StreamlitValueAboveMaxError))"
proof -
  let ?n = "nunique (map Itemname df)"
  let ?agg = "sort_values argsort False (value_col (top_mode s)) (product_agg df)"
  let ?le = "\<lambda>a b. value_col (top_mode s) b \<le> value_col (top_mode s) a"
  have len: "length ?agg = ?n"
    by (simp add: length_sort_values_desc[OF assms] length_product_agg)
  have srt: "sorted_wrt ?le ?agg" by (rule sorted_sort_values_desc[OF assms])
  have ms: "mset ?agg = mset (product_agg df)" by (rule mset_sort_values_desc[OF assms])
  \<comment> \<open>a table of \<open>k\<close> rows\<close>
  have table: "\<exists>msgs top agg. top_products argsort s df = Inr (Inr (msgs, top))
                \<and> length top = k
                \<and> sorted_wrt ?le top \<and> mset agg = mset (product_agg df) \<and> sorted_wrt ?le agg
                \<and> top = take (length top) agg"
    if pos: "0 < ?n" and tn: "top_n Un_seul_produit (int ?n) (top_n_slider s) = Inr (m, int k)" and k: "k \<le> ?n"
    for m k
  proof -
    have t: "top_products argsort s df = Inr (Inr (m, take k ?agg))"
      unfolding top_products_nonempty[OF assms pos] tn by (simp add: df_head_take)
    have l: "length (take k ?agg) = k" using len k by simp
    have st: "sorted_wrt ?le (take k ?agg)" using srt by (rule sorted_wrt_take)
    have tk: "take k ?agg = take (length (take k ?agg)) ?agg" by (simp only: l)
    show ?thesis
      apply (rule exI[of _ m])
      apply (rule exI[of _ "take k ?agg"])
      apply (rule exI[of _ ?agg])
      apply (intro conjI)
           apply (rule t)
          apply (rule l)
         apply (rule st)
        apply (rule ms)
       apply (rule srt)
      apply (rule tk)
      done
  qed
  have a: "0 < ?n \<and> (?n = 1 \<or> top_n_slider s = None \<or> (\<exists>v. top_n_slider s = Some v \<and> 1 \<le> v \<and> v \<le> int ?n))
          \<longrightarrow> (\<exists>msgs top agg. top_products argsort s df = Inr (Inr (msgs, top))
                \<and> length top = (if ?n = 1 then 1
                                  else case top_n_slider s of None \<Rightarrow> min 10 ?n | Some v \<Rightarrow> min (nat v) ?n)
                \<and> sorted_wrt ?le top \<and> mset agg = mset (product_agg df) \<and> sorted_wrt ?le agg
                \<and> top = take (length top) agg)"
  proof
    assume h: "0 < ?n \<and> (?n = 1 \<or> top_n_slider s = None \<or> (\<exists>v. top_n_slider s = Some v \<and> 1 \<le> v \<and> v \<le> int ?n))"
    then have pos: "0 < ?n" by simp
    show "\<exists>msgs top agg. top_products argsort s df = Inr (Inr (msgs, top))
                \<and> length top = (if ?n = 1 then 1
                                  else case top_n_slider s of None \<Rightarrow> min 10 ?n | Some v \<Rightarrow> min (nat v) ?n)
                \<and> sorted_wrt ?le top \<and> mset agg = mset (product_agg df) \<and> sorted_wrt ?le agg
                \<and> top = take (length top) agg"
    proof (cases "?n = 1")
      case True
      have "top_n Un_seul_produit (int ?n) (top_n_slider s) = Inr ([Un_seul_produit], int 1)"
        using True by (simp add: top_n_single)
      from table[OF pos this] True show ?thesis by simp
    next
      case False
      then have n1: "int ?n \<noteq> 1" by simp
      show ?thesis
      proof (cases "top_n_slider s")
        case None
        have "top_n Un_seul_produit (int ?n) (top_n_slider s) = Inr ([], int (min 10 ?n))"
          using top_n_default[OF n1] None by simp
        from table[OF pos this] False None show ?thesis by simp
      next
        case (Some v)
        with h False have v: "1 \<le> v" "v \<le> int ?n" by auto
        have "top_n Un_seul_produit (int ?n) (top_n_slider s) = Inr ([], int (nat v))"
          using top_n_accepted[OF n1 v] Some v by simp
        moreover have "nat v \<le> ?n" using v by simp
        ultimately have "\<exists>msgs top agg. top_products argsort s df = Inr (Inr (msgs, top))
                \<and> length top = nat v
                \<and> sorted_wrt ?le top \<and> mset agg = mset (product_agg df) \<and> sorted_wrt ?le agg
                \<and> top = take (length top) agg"
          by (rule table[OF pos])
        moreover have "min (nat v) ?n = nat v" using v by simp
        ultimately show ?thesis using False Some by simp
      qed
    qed
  qed
  have b: "df \<noteq> [] \<and> ?n = 0 \<longrightarrow> top_products argsort s df = Inr (Inl Aucun_produit_apres_filtrage)"
  proof
    assume h: "df \<noteq> [] \<and> ?n = 0"
    then have "?agg = []" using len by simp
    then show "top_products argsort s df = Inr (Inl Aucun_produit_apres_filtrage)"
      using h by (simp add: top_products_def Let_def)
  qed
  have c: "1 < ?n \<longrightarrow>
            (\<forall>v. top_n_slider s = Some v \<and> v < 1
                 \<longrightarrow> top_products argsort s df = Inl StreamlitValueBelowMinError)
          \<and> (\<forall>v. top_n_slider s = Some v \<and> int ?n < v
                 \<longrightarrow> top_products argsort s df = Inl StreamlitValueAboveMaxError)"
  proof (intro impI conjI allI)
    fix v assume n: "1 < ?n" and v: "top_n_slider s = Some v \<and> v < 1"
    then have "top_n Un_seul_produit (int ?n) (top_n_slider s) = Inl StreamlitValueBelowMinError"
      by (simp add: top_n_below)
    then show "top_products argsort s df = Inl StreamlitValueBelowMinError"
      using n by (simp add: top_products_nonempty[OF assms])
  next
    fix v assume n: "1 < ?n" and v: "top_n_slider s = Some v \<and> int ?n < v"
    then have "top_n Un_seul_produit (int ?n) (top_n_slider s) = Inl StreamlitValueAboveMaxError"
      by (simp add: top_n_above)
    then show "top_products argsort s df = Inl StreamlitValueAboveMaxError"
      using n by (simp add: top_products_nonempty[OF assms])
  qed
  from a b c show ?thesis by blast
qed

theorem top_products_ranked_witness:
  "argsort_ok stable_argsort
   \<and> nunique (map Itemname scenario) = 2
   \<and> top_n_slider untouched = None
   \<and> top_products stable_argsort untouched scenario
       = Inr (Inr ([], [\<lparr> item = ''Mug'', quantity_sold = 3, revenue = 9, n_transactions = 2 \<rparr>,
                        \<lparr> item = ''Plate'', quantity_sold = 1, revenue = 5, n_transactions = 1 \<rparr>]))
   \<and> length (snd (projr (projr (top_products stable_argsort untouched scenario)))) = 2"
proof -
  have n: "nunique (map Itemname scenario) = 2" by code_simp
  have u: "top_n_slider untouched = None" by (simp add: untouched_def)
  have e: "top_products stable_argsort untouched scenario
       = Inr (Inr ([], [\<lparr> item = ''Mug'', quantity_sold = 3, revenue = 9, n_transactions = 2 \<rparr>,
                        \<lparr> item = ''Plate'', quantity_sold = 1, revenue = 5, n_transactions = 1 \<rparr>]))"
    by code_simp
  have h: "0 < nunique (map Itemname scenario)
          \<and> (nunique (map Itemname scenario) = 1 \<or> top_n_slider untouched = None
               \<or> (\<exists>v. top_n_slider untouched = Some v \<and> 1 \<le> v \<and> v \<le> int (nunique (map Itemname scenario))))"
    using n u by simp
  from top_products_ranked [OF stable_argsort_ok, of scenario untouched] h obtain msgs top where
    "top_products stable_argsort untouched scenario = Inr (Inr (msgs, top))"
    "length top = (if nunique (map Itemname scenario) = 1 then 1
                   else case top_n_slider untouched of
                          None \<Rightarrow> min 10 (nunique (map Itemname scenario))
                        | Some v \<Rightarrow> min (nat v) (nunique (map Itemname scenario)))"
    by blast
  then have "length (snd (projr (projr (top_products stable_argsort untouched scenario)))) = 2"
    using n u by simp
  then show ?thesis using stable_argsort_ok n u e by blast
qed

text \<open>
  Three inputs on which claim C5 fails as it is stated. Of four products, Cherry and
  Damson sold in equal quantity, the table shows Damson before Cherry, the reverse of the
  group order: this is the order in which numpy's vectorised quicksort, a sorting
  network on up to eight keys, leaves the two equal keys, and the order an argsort that
  reverses equal keys gives. A view with rows but no defined Itemname gets a message and
  no table. And with 9 held by the slider and four products, the slider raises
  instead of showing four rows.
\<close>

theorem top_products_ties_counterexample:
  "argsort_ok reversing_argsort
   \<and> map item (product_agg four_products) = [''Apple'', ''Banana'', ''Cherry'', ''Damson'']
   \<and> map quantity_sold (product_agg four_products) = [1, 2, 3, 3]
   \<and> top_products reversing_argsort untouched four_products
       = Inr (Inr ([], [\<lparr> item = ''Damson'', quantity_sold = 3, revenue = 6, n_transactions = 1 \<rparr>,
                        \<lparr> item = ''Cherry'', quantity_sold = 3, revenue = 6, n_transactions = 1 \<rparr>,
                        \<lparr> item = ''Banana'', quantity_sold = 2, revenue = 4, n_transactions = 1 \<rparr>,
                        \<lparr> item = ''Apple'', quantity_sold = 1, revenue = 2, n_transactions = 1 \<rparr>]))
   \<and> no_item \<noteq> []
   \<and> top_products stable_argsort untouched no_item = Inr (Inl Aucun_produit_apres_filtrage)
   \<and> top_n_slider nine_products = Some 9
   \<and> top_products stable_argsort nine_products four_products = Inl StreamlitValueAboveMaxError"
proof -
  have "map item (product_agg four_products) = [''Apple'', ''Banana'', ''Cherry'', ''Damson'']"
    by code_simp
  moreover have "map quantity_sold (product_agg four_products) = [1, 2, 3, 3]" by code_simp
  moreover have "top_products reversing_argsort untouched four_products
       = Inr (Inr ([], [\<lparr> item = ''Damson'', quantity_sold = 3, revenue = 6, n_transactions = 1 \<rparr>,
                        \<lparr> item = ''Cherry'', quantity_sold = 3, revenue = 6, n_transactions = 1 \<rparr>,
                        \<lparr> item = ''Banana'', quantity_sold = 2, revenue = 4, n_transactions = 1 \<rparr>,
                        \<lparr> item = ''Apple'', quantity_sold = 1, revenue = 2, n_transactions = 1 \<rparr>]))"
    by code_simp
  moreover have "no_item \<noteq> []" by code_simp
  moreover have "top_products stable_argsort untouched no_item = Inr (Inl Aucun_produit_apres_filtrage)"
    by code_simp
  moreover have "top_n_slider nine_products = Some 9" by (simp add: nine_products_def untouched_def)
  moreover have "top_products stable_argsort nine_products four_products = Inl StreamlitValueAboveMaxError"
    by code_simp
  ultimately show ?thesis using reversing_argsort_ok by blast
qed

subsection \<open>Empty views\<close>

lemma kpi_section_Nil:
  "kpi_section [] = \<lparr> kpi_transactions = 0, kpi_articles = 0, kpi_clients = Shown 0,
                        kpi_chiffre_affaires = 0 \<rparr>"
  by (simp add: kpi_section_def nunique_def series_sum_def np_isnan_def)

lemma transactions_over_time_Nil: "transactions_over_time s [] = []"
  by (simp add: transactions_over_time_def groupby_Nil split: freq.splits)

lemma temporal_pattern_Nil: "temporal_pattern [] = []"
  by (simp add: temporal_pattern_def groupby_Nil)

lemma filter_data_no_ValueError: "filter_data s df \<noteq> Inl ValueError"
  using filter_data_error[of s df ValueError] by auto

lemma filter_data_signal:
  assumes "filter_data s df = Inr res"
  shows "view res = [] \<longleftrightarrow>
           sidebar res = [Aucune_donnee_disponible] \<or> sidebar res = [Aucune_ligne_apres_filtres]"
  using filter_data_result[OF assms] by auto

text \<open>
  Claim C6. An empty source is returned at once with the warning that there is no data.
  When no row lies in the chosen period, the view is empty, the warning that no row is
  left is given and the quantity stage is not run. \<^verbatim>\<open>filter_data\<close> never raises the
  ValueError of a minimum or maximum taken on no row. The view it returns is empty
  exactly when one of the two warnings is given. On the empty view every section of the
  dashboard has a defined result: zero counts and a zero total, empty tables, or the
  message that there is no data.
\<close>

theorem empty_view_guarded:
  "filter_data s [] = Inr \<lparr> source = [], sidebar = [Aucune_donnee_disponible], view = [] \<rparr>
   \<and> (\<forall>c a b. df \<noteq> [] \<and> periode_filtre s = Some c \<and> date_bounds c = Inr (a, b)
          \<and> (\<forall>r\<in>set df. \<not> (a \<le> InvoiceDate r \<and> InvoiceDate r \<le> b))
        \<longrightarrow> filter_data s df
              = Inr \<lparr> source = df, sidebar = [Aucune_ligne_apres_filtres], view = [] \<rparr>)
   \<and> filter_data s df \<noteq> Inl ValueError
   \<and> (\<forall>res. filter_data s df = Inr res \<longrightarrow>
         (view res = [] \<longleftrightarrow>
            sidebar res = [Aucune_donnee_disponible] \<or> sidebar res = [Aucune_ligne_apres_filtres]))
   \<and> kpi_section [] = \<lparr> kpi_transactions = 0, kpi_articles = 0, kpi_clients = Shown 0,
                           kpi_chiffre_affaires = 0 \<rparr>
   \<and> transactions_over_time s [] = []
   \<and> top_products argsort s [] = Inr (Inl Aucune_donnee_produits)
   \<and> basket_analysis [] = Inl Aucune_donnee_paniers
   \<and> country_analysis argsort s [] = Inr (Inl Aucune_donnee_geographique)
   \<and> temporal_pattern [] = []"
proof (intro conjI allI impI)
  show "filter_data s [] = Inr \<lparr> source = [], sidebar = [Aucune_donnee_disponible], view = [] \<rparr>"
    by (rule filter_data_empty)
  show "filter_data s df \<noteq> Inl ValueError" by (rule filter_data_no_ValueError)
  show "kpi_section [] = \<lparr> kpi_transactions = 0, kpi_articles = 0, kpi_clients = Shown 0,
                           kpi_chiffre_affaires = 0 \<rparr>"
    by (rule kpi_section_Nil)
  show "transactions_over_time s [] = []" by (rule transactions_over_time_Nil)
  show "top_products argsort s [] = Inr (Inl Aucune_donnee_produits)" by (simp add: top_products_def)
  show "basket_analysis [] = Inl Aucune_donnee_paniers" by (simp add: basket_analysis_def)
  show "country_analysis argsort s [] = Inr (Inl Aucune_donnee_geographique)"
    by (simp add: country_analysis_def)
  show "temporal_pattern [] = []" by (rule temporal_pattern_Nil)
next
  fix c a b
  assume "df \<noteq> [] \<and> periode_filtre s = Some c \<and> date_bounds c = Inr (a, b)
          \<and> (\<forall>r\<in>set df. \<not> (a \<le> InvoiceDate r \<and> InvoiceDate r \<le> b))"
  then show "filter_data s df = Inr \<lparr> source = df, sidebar = [Aucune_ligne_apres_filtres], view = [] \<rparr>"
    using filter_data_date_stage_empty by blast
next
  fix res assume "filter_data s df = Inr res"
  then show "view res = [] \<longleftrightarrow>
            sidebar res = [Aucune_donnee_disponible] \<or> sidebar res = [Aucune_ligne_apres_filtres]"
    by (rule filter_data_signal)
qed

theorem empty_view_guarded_witness:
  "scenario \<noteq> []
   \<and> periode_filtre other_day = Some (DateScalar 18262)
   \<and> date_bounds (DateScalar 18262) = Inr (18262, 18262)
   \<and> map InvoiceDate scenario = [18632, 18632, 18659]
   \<and> filter_data other_day scenario
       = Inr \<lparr> source = scenario, sidebar = [Aucune_ligne_apres_filtres], view = [] \<rparr>
   \<and> kpi_section (view (projr (filter_data other_day scenario)))
       = \<lparr> kpi_transactions = 0, kpi_articles = 0, kpi_clients = Shown 0, kpi_chiffre_affaires = 0 \<rparr>"
proof -
  have h1: "scenario \<noteq> []" by code_simp
  have h2: "periode_filtre other_day = Some (DateScalar 18262)"
    by (simp add: other_day_def untouched_def)
  have h3: "date_bounds (DateScalar 18262) = Inr (18262, 18262)"
    by (simp add: date_bounds_def)
  have d: "map InvoiceDate scenario = [18632, 18632, 18659]" by code_simp
  have h4: "\<forall>r\<in>set scenario. \<not> (18262 \<le> InvoiceDate r \<and> InvoiceDate r \<le> 18262)"
  proof
    fix r assume "r \<in> set scenario"
    then have "InvoiceDate r \<in> set (map InvoiceDate scenario)" by simp
    then show "\<not> (18262 \<le> InvoiceDate r \<and> InvoiceDate r \<le> 18262)" unfolding d by auto
  qed
  note t = empty_view_guarded [of other_day scenario]
  from t h1 h2 h3 h4 have f: "filter_data other_day scenario
       = Inr \<lparr> source = scenario, sidebar = [Aucune_ligne_apres_filtres], view = [] \<rparr>"
    by blast
  from t have "kpi_section [] = \<lparr> kpi_transactions = 0, kpi_articles = 0, kpi_clients = Shown 0,
                           kpi_chiffre_affaires = 0 \<rparr>" by blast
  with f h1 h2 h3 d show ?thesis by simp
qed

end
